theory Spec2Isabelle
  imports Main "HOL-Library.Sublist"
begin

section \<open>Python strings\<close>

text \<open>
  A Python \<open>str\<close> is modelled as a HOL \<open>string\<close>; a character stands for a code point
  below 256. \<open>len\<close> is \<open>length\<close>, a slice \<open>s[:n]\<close> is \<open>take n s\<close>.
\<close>

definition is_space :: "char \<Rightarrow> bool" where
  \<comment> \<open>\<open>str.isspace\<close> on one character: TAB, LF, VT, FF, CR, FS, GS, RS, US, space, NEL, NBSP\<close>
  "is_space c = (let n = (of_char c :: nat) in
     (9 \<le> n \<and> n \<le> 13) \<or> (28 \<le> n \<and> n \<le> 32) \<or> n = 133 \<or> n = 160)"

definition lower_char :: "char \<Rightarrow> char" where
  \<comment> \<open>\<open>str.lower\<close> on one character: A-Z and the Latin-1 capitals move up by 32\<close>
  "lower_char c = (let n = (of_char c :: nat) in
     if (65 \<le> n \<and> n \<le> 90) \<or> (192 \<le> n \<and> n \<le> 222 \<and> n \<noteq> 215)
     then char_of (n + 32) else c)"

definition py_lower :: "string \<Rightarrow> string" where
  "py_lower s = map lower_char s"

definition py_strip :: "string \<Rightarrow> string" where
  \<comment> \<open>\<open>s.strip()\<close>: leading and trailing whitespace removed\<close>
  "py_strip s = rev (dropWhile is_space (rev (dropWhile is_space s)))"

fun py_join :: "string \<Rightarrow> string list \<Rightarrow> string" where
  "py_join sep [] = []"
| "py_join sep [x] = x"
| "py_join sep (x # y # ys) = x @ sep @ py_join sep (y # ys)"

fun split_loop :: "string \<Rightarrow> string \<Rightarrow> string list" where
  \<comment> \<open>\<open>s.split()\<close>: the word read so far, then the rest of the input\<close>
  "split_loop w [] = (if w = [] then [] else [w])"
| "split_loop w (c # cs) =
     (if is_space c then (if w = [] then [] else [w]) @ split_loop [] cs
      else split_loop (w @ [c]) cs)"

definition py_split :: "string \<Rightarrow> string list" where
  "py_split s = split_loop [] s"

fun py_in :: "string \<Rightarrow> string \<Rightarrow> bool" where
  \<comment> \<open>\<open>sub in s\<close> on strings: \<open>sub\<close> occurs in \<open>s\<close> as a contiguous run\<close>
  "py_in sub [] = (sub = [])"
| "py_in sub (c # cs) = (prefix sub (c # cs) \<or> py_in sub cs)"

definition digit_char :: "nat \<Rightarrow> char" where
  "digit_char d = char_of (48 + d)"

fun str_of_nat :: "nat \<Rightarrow> string" where
  \<comment> \<open>the decimal text of a non-negative integer, as an f-string prints it\<close>
  "str_of_nat n = (if n < 10 then [digit_char n]
                   else str_of_nat (n div 10) @ [digit_char (n mod 10)])"

declare str_of_nat.simps [simp del]

section \<open>The data model\<close>

text \<open>
  The result dictionaries of \<open>scraper.py\<close>. A dictionary whose keys are always all present
  is a record; \<open>meta\<close>, which the passes build with different key sets, is a map.
  A value that is a string or \<open>None\<close> is a \<open>pystr\<close>.
\<close>

record link =
  l_text :: string
  l_href :: string

datatype pystr = Str string | PyNone

fun truthy :: "pystr \<Rightarrow> bool" where
  \<comment> \<open>the truth value of a string or \<open>None\<close> in an \<open>if\<close>\<close>
  "truthy (Str s) = (s \<noteq> [])"
| "truthy PyNone = False"

record image =
  im_src :: string
  im_alt :: pystr

record content =
  c_headings :: "string list"
  c_text :: string
  c_links :: "link list"
  c_images :: "image list"
  c_lists :: "string list list"
  c_tables :: "string list list list"

record sect =
  s_id :: string
  s_type :: string
  s_label :: string
  s_sourceUrl :: string
  s_content :: content
  s_rawHtml :: string
  s_truncated :: bool

record scrape_error =
  e_message :: string
  e_phase :: string
  e_suggestion :: "string option"

record interactions =
  i_clicks :: "string list"
  i_scrolls :: nat
  i_pages :: "string list"

type_synonym meta = "string \<rightharpoonup> pystr"

text \<open>What \<open>_static_scrape\<close> and \<open>_js_scrape\<close> return: the four keys they always set.\<close>

record pass_result =
  p_meta :: meta
  p_sections :: "sect list"
  p_interactions :: interactions
  p_errors :: "scrape_error list"

text \<open>What \<open>scrape\<close> returns.\<close>

record scrape_result =
  r_url :: string
  r_scrapedAt :: string
  r_meta :: meta
  r_sections :: "sect list"
  r_interactions :: interactions
  r_errors :: "scrape_error list"

section \<open>Deduplication\<close>

definition fingerprint :: "sect \<Rightarrow> string" where
  \<comment> \<open>\<open>text[:100].lower().strip()\<close>\<close>
  "fingerprint s = py_strip (py_lower (take 100 (c_text (s_content s))))"

fun dedup_loop :: "string set \<Rightarrow> sect list \<Rightarrow> sect list" where
  \<comment> \<open>the \<open>for\<close> loop of \<open>_deduplicate_sections\<close>; \<open>seen\<close> is \<open>seen_texts\<close>, the result is
      what the loop appends to \<open>unique_sections\<close>\<close>
  "dedup_loop seen [] = []"
| "dedup_loop seen (s # ss) =
     (let fp = fingerprint s in
      if fp \<noteq> [] \<and> fp \<notin> seen then s # dedup_loop (insert fp seen) ss
      else if fp = [] \<and> c_headings (s_content s) \<noteq> [] then s # dedup_loop seen ss
      else dedup_loop seen ss)"

definition deduplicate_sections :: "sect list \<Rightarrow> sect list" where
  "deduplicate_sections sections =
     (if length sections \<le> 1 then sections else dedup_loop {} sections)"

text \<open>
  The rule of the specification, in its own words: a section with a non-empty fingerprint is
  kept when no earlier section of the input has that fingerprint, and a section with an
  empty fingerprint is kept when it has a heading.
\<close>

fun dedup_rule :: "sect list \<Rightarrow> sect list \<Rightarrow> sect list" where
  "dedup_rule earlier [] = []"
| "dedup_rule earlier (s # ss) =
     (if (fingerprint s \<noteq> [] \<and> fingerprint s \<notin> fingerprint ` set earlier)
         \<or> (fingerprint s = [] \<and> c_headings (s_content s) \<noteq> [])
      then s # dedup_rule (earlier @ [s]) ss
      else dedup_rule (earlier @ [s]) ss)"

section \<open>The needs-rendering decision\<close>

definition blocked_errors :: "string list" where
  "blocked_errors = [''403'', ''429'', ''Forbidden'', ''Too Many Requests'']"

definition needs_js_rendering :: "scrape_result \<Rightarrow> bool" where
  "needs_js_rendering result =
     (let sections = r_sections result; errors = r_errors result in
      if list_ex (\<lambda>e. list_ex (\<lambda>block. py_in block (e_message e)) blocked_errors) errors
      then False
      else if length sections < 2 then True
      else (let total_text = sum_list (map (\<lambda>s. length (c_text (s_content s))) sections) in
            if total_text < 200 then True else False))"

section \<open>The parsed markup tree\<close>

text \<open>
  The tree that \<open>HTMLParser\<close> builds: an element has a tag, attributes (a value is \<open>None\<close>
  when the attribute is written without one) and children; a text node has its text.
  Two nodes are equal when their markup is, which is how the parsing library compares them.
\<close>

datatype node = Element string "(string \<times> pystr) list" "node list" | TextNode string

fun tag :: "node \<Rightarrow> string" where
  "tag (Element t a cs) = t"
| "tag (TextNode s) = ''-text''"

fun attributes :: "node \<Rightarrow> (string \<times> pystr) list" where
  "attributes (Element t a cs) = a"
| "attributes (TextNode s) = []"

definition attr_get :: "node \<Rightarrow> string \<Rightarrow> string \<Rightarrow> pystr" where
  \<comment> \<open>\<open>node.attributes.get(key, default)\<close>\<close>
  "attr_get n key dflt = (case map_of (attributes n) key of None \<Rightarrow> Str dflt | Some v \<Rightarrow> v)"

fun css_all :: "node \<Rightarrow> node list" where
  \<comment> \<open>the node and everything below it, in document order\<close>
  "css_all (TextNode s) = [TextNode s]"
| "css_all (Element t a cs) = Element t a cs # concat (map css_all cs)"

definition css :: "string list \<Rightarrow> node \<Rightarrow> node list" where
  \<comment> \<open>\<open>node.css("t1, t2")\<close> for a selector that is a list of tag names: the matches of the
      first tag in document order, then those of the second, and so on\<close>
  "css tags n = concat (map (\<lambda>t. filter (\<lambda>m. tag m = t) (css_all n)) tags)"

definition css_first :: "string list \<Rightarrow> node \<Rightarrow> node option" where
  "css_first tags n = (case css tags n of [] \<Rightarrow> None | m # ms \<Rightarrow> Some m)"

definition css_first_attr :: "string \<Rightarrow> string \<Rightarrow> string \<Rightarrow> node \<Rightarrow> node option" where
  \<comment> \<open>\<open>css_first('t[key="value"]')\<close>; the value is compared without regard to case\<close>
  "css_first_attr t key val n =
     (case filter (\<lambda>m. tag m = t
                       \<and> (case map_of (attributes m) key of
                            Some (Str v) \<Rightarrow> py_lower v = py_lower val
                          | _ \<Rightarrow> False))
                  (css_all n) of
        [] \<Rightarrow> None | m # ms \<Rightarrow> Some m)"

fun text_pieces :: "node \<Rightarrow> string list" where
  \<comment> \<open>the text nodes below a node, in document order\<close>
  "text_pieces (TextNode s) = [s]"
| "text_pieces (Element t a cs) = concat (map text_pieces cs)"

definition node_text :: "node \<Rightarrow> string" where
  \<comment> \<open>\<open>node.text(strip=True)\<close>: every text piece stripped, joined with no separator\<close>
  "node_text n = concat (map py_strip (text_pieces n))"

fun following :: "node \<Rightarrow> (node \<times> node list) list"
  and following_list :: "node list \<Rightarrow> (node \<times> node list) list" where
  \<comment> \<open>every \<open>h1\<close>, \<open>h2\<close>, \<open>h3\<close> strictly below a node, in document order, each with the
      siblings after it (what repeated \<open>.next\<close> walks over)\<close>
  "following (TextNode s) = []"
| "following (Element t a cs) = following_list cs"
| "following_list [] = []"
| "following_list (c # rest) =
     (if tag c \<in> set [''h1'', ''h2'', ''h3''] then [(c, rest)] else [])
       @ following c @ following_list rest"

definition heading_matches :: "node \<Rightarrow> (node \<times> node list) list" where
  \<comment> \<open>\<open>body.css("h1, h2, h3")\<close>, each match with the siblings after it: every \<open>h1\<close> in
      document order, then every \<open>h2\<close>, then every \<open>h3\<close>\<close>
  "heading_matches body =
     concat (map (\<lambda>t. filter (\<lambda>(heading, siblings). tag heading = t) (following body))
                 [''h1'', ''h2'', ''h3''])"

section \<open>What the engine calls into\<close>

text \<open>
  The library functions and the outside world, as the values they hand back. An exception
  raised by a call is an outcome of that call, carrying \<open>str(e)\<close>.
\<close>

datatype fetch_outcome =
    FetchOk node
  | FetchHTTPStatusError nat string
  | FetchTimeout
  | FetchException string

datatype 'a attempt = Done 'a | TimedOut string | Failed string

datatype scroll_round = Heights int int | ScrollRaised string

datatype pag_step = NoNextLink | NextLink "string option" bool | PagRaised string

text \<open>
  One browser session of \<open>_js_scrape\<close>:
  \<^item> \<open>b_startup\<close>: the message of an exception raised while the browser, context and page
    are set up, if any;
  \<^item> \<open>b_navigate\<close>: \<open>goto\<close> and the two waits after it (\<open>TimedOut\<close> is \<open>PlaywrightTimeout\<close>);
  \<^item> \<open>b_clicks\<close>: the selectors \<open>_perform_clicks\<close> recorded (it swallows every failure);
  \<^item> \<open>b_scroll i\<close>: round \<open>i\<close> of \<open>_perform_scrolls\<close>: the heights before and after, or
    an exception;
  \<^item> \<open>b_pagination i\<close>: round \<open>i\<close> of \<open>_follow_pagination\<close>: no visible next link, or a
    link with its resolved URL (\<open>None\<close> when it has no \<open>href\<close>) and whether the click and
    the waits went through, or an exception before the click;
  \<^item> \<open>b_content\<close>: \<open>page.content()\<close>, parsed;
  \<^item> \<open>b_close\<close>: the message of an exception raised while the session is closed, if any.
\<close>

record browser_run =
  b_startup :: "string option"
  b_navigate :: "unit attempt"
  b_clicks :: "string list"
  b_scroll :: "nat \<Rightarrow> scroll_round"
  b_pagination :: "nat \<Rightarrow> pag_step"
  b_content :: "node attempt"
  b_close :: "string option"

text \<open>
  \<^item> \<open>urljoin\<close>: \<open>urllib.parse.urljoin\<close>, or the message of the \<open>ValueError\<close> it raises on a
    malformed URL;
  \<^item> \<open>html_of\<close>: the markup of a node (\<open>node.html\<close>);
  \<^item> \<open>netloc\<close>: \<open>urlparse(url).netloc\<close>, or the message of the exception it raises;
  \<^item> \<open>utc_now\<close>: \<open>datetime.now(timezone.utc).isoformat()\<close>;
  \<^item> \<open>playwright_available\<close>: the module flag \<open>PLAYWRIGHT_AVAILABLE\<close>;
  \<^item> \<open>fetch\<close>: the GET request and the parse of its body;
  \<^item> \<open>browser\<close>: the browser session opened for a URL.
\<close>

record env =
  urljoin :: "string \<Rightarrow> string \<Rightarrow> string + string"
  html_of :: "node \<Rightarrow> string"
  netloc :: "string \<Rightarrow> string + string"
  utc_now :: string
  playwright_available :: bool
  fetch :: "string \<Rightarrow> fetch_outcome"
  browser :: "string \<Rightarrow> browser_run"

section \<open>Metadata extraction\<close>

definition first_truthy :: "pystr \<Rightarrow> node option \<Rightarrow> pystr" where
  \<comment> \<open>\<open>if not value: tag = ...; if tag: value = tag.attributes.get("content", "")\<close>\<close>
  "first_truthy v found =
     (if \<not> truthy v then (case found of None \<Rightarrow> v | Some m \<Rightarrow> attr_get m ''content'' [])
      else v)"

definition extract_meta :: "env \<Rightarrow> node \<Rightarrow> string \<Rightarrow> string + meta" where
  \<comment> \<open>\<open>Inl\<close>: the exception of \<open>urljoin\<close> on the canonical link\<close>
  "extract_meta e parser url =
     (let title = (case css_first [''title''] parser of
                     None \<Rightarrow> Str [] | Some t \<Rightarrow> Str (node_text t));
          title = first_truthy title (css_first_attr ''meta'' ''property'' ''og:title'' parser);
          title = first_truthy title (css_first_attr ''meta'' ''name'' ''twitter:title'' parser);
          description = (case css_first_attr ''meta'' ''name'' ''description'' parser of
                           None \<Rightarrow> Str [] | Some m \<Rightarrow> attr_get m ''content'' []);
          description =
            first_truthy description (css_first_attr ''meta'' ''property'' ''og:description'' parser);
          description =
            first_truthy description (css_first_attr ''meta'' ''name'' ''twitter:description'' parser);
          language = (case css_first [''html''] parser of
                        None \<Rightarrow> Str ''en''
                      | Some h \<Rightarrow>
                          (case attr_get h ''lang'' ''en'' of
                             Str lang \<Rightarrow> if lang \<noteq> [] then Str (takeWhile (\<lambda>c. c \<noteq> CHR ''-'') lang)
                                         else Str ''en''
                           | PyNone \<Rightarrow> Str ''en''));
          canonical = (case css_first_attr ''link'' ''rel'' ''canonical'' parser of
                         None \<Rightarrow> Inr PyNone
                       | Some c \<Rightarrow>
                           (case attr_get c ''href'' [] of
                              Str canonical_url \<Rightarrow>
                                if canonical_url \<noteq> []
                                then (case urljoin e url canonical_url of
                                        Inl msg \<Rightarrow> Inl msg
                                      | Inr absolute_url \<Rightarrow> Inr (Str absolute_url))
                                else Inr PyNone
                            | PyNone \<Rightarrow> Inr PyNone))
      in case canonical of
           Inl msg \<Rightarrow> Inl msg
         | Inr canonical \<Rightarrow>
             Inr [''title'' \<mapsto> title, ''description'' \<mapsto> description,
                  ''language'' \<mapsto> language, ''canonical'' \<mapsto> canonical])"

section \<open>Section processing\<close>

definition heading_selectors :: "string list" where
  \<comment> \<open>\<open>f"h{level}"\<close> for \<open>level\<close> in \<open>range(1, 7)\<close>\<close>
  "heading_selectors = map (\<lambda>level. ''h'' @ str_of_nat level) [1..<7]"

definition extract_headings :: "node \<Rightarrow> string list" where
  "extract_headings element =
     concat (map (\<lambda>sel. filter (\<lambda>t. t \<noteq> [] \<and> length t > 0) (map node_text (css [sel] element)))
                 heading_selectors)"

fun div_loop :: "string list \<Rightarrow> node list \<Rightarrow> string list" where
  "div_loop text_parts [] = text_parts"
| "div_loop text_parts (d # ds) =
     (let t = node_text d in
      if t \<noteq> [] \<and> length t > 30
      then (let text_parts' = text_parts @ [t] in
            if length text_parts' \<ge> 5 then text_parts' else div_loop text_parts' ds)
      else div_loop text_parts ds)"

definition extract_text :: "node \<Rightarrow> string" where
  "extract_text element =
     (let text_parts = filter (\<lambda>t. t \<noteq> [] \<and> length t > 10) (map node_text (css [''p''] element));
          text_parts = (if length text_parts < 2 then div_loop text_parts (css [''div''] element)
                        else text_parts)
      in py_join '' '' (take 15 text_parts))"

fun links_loop :: "env \<Rightarrow> string \<Rightarrow> link list \<Rightarrow> node list \<Rightarrow> string + link list" where
  \<comment> \<open>\<open>Inl\<close>: the exception of \<open>urljoin\<close> on a link\<close>
  "links_loop e url links [] = Inr links"
| "links_loop e url links (a # as) =
     (case attr_get a ''href'' [] of
        PyNone \<Rightarrow> links_loop e url links as
      | Str href \<Rightarrow>
          (let t = node_text a in
           if href \<noteq> [] \<and> t \<noteq> []
           then (case urljoin e url href of
                   Inl msg \<Rightarrow> Inl msg
                 | Inr absolute_url \<Rightarrow>
                     (let links' = links @ [\<lparr>l_text = take 100 t, l_href = absolute_url\<rparr>] in
                      if length links' \<ge> 20 then Inr links' else links_loop e url links' as))
           else links_loop e url links as))"

fun images_loop :: "env \<Rightarrow> string \<Rightarrow> image list \<Rightarrow> node list \<Rightarrow> string + image list" where
  \<comment> \<open>\<open>Inl\<close>: the exception of \<open>urljoin\<close> on an image source\<close>
  "images_loop e url images [] = Inr images"
| "images_loop e url images (img # imgs) =
     (let src = (if truthy (attr_get img ''src'' []) then attr_get img ''src'' []
                 else attr_get img ''data-src'' []);
          alt = attr_get img ''alt'' []
      in case src of
           PyNone \<Rightarrow> images_loop e url images imgs
         | Str src' \<Rightarrow>
             if src' \<noteq> []
             then (case urljoin e url src' of
                     Inl msg \<Rightarrow> Inl msg
                   | Inr absolute_src \<Rightarrow>
                       (let images' = images @ [\<lparr>im_src = absolute_src, im_alt = alt\<rparr>] in
                        if length images' \<ge> 10 then Inr images'
                        else images_loop e url images' imgs))
             else images_loop e url images imgs)"

fun lists_loop :: "string list list \<Rightarrow> node list \<Rightarrow> string list list" where
  "lists_loop lsts [] = lsts"
| "lists_loop lsts (ul # uls) =
     (let items = map (take 200) (filter (\<lambda>t. t \<noteq> []) (map node_text (css [''li''] ul)));
          lsts' = (if items \<noteq> [] then lsts @ [take 20 items] else lsts)
      in if length lsts' \<ge> 5 then lsts' else lists_loop lsts' uls)"

fun rows_loop :: "string list list \<Rightarrow> node list \<Rightarrow> string list list" where
  "rows_loop table_data [] = table_data"
| "rows_loop table_data (row # rows) =
     (let row_data = map (\<lambda>cell. take 100 (node_text cell)) (css [''td'', ''th''] row);
          table_data' = (if row_data \<noteq> [] then table_data @ [row_data] else table_data)
      in if length table_data' \<ge> 20 then table_data' else rows_loop table_data' rows)"

fun tables_loop :: "string list list list \<Rightarrow> node list \<Rightarrow> string list list list" where
  "tables_loop tbls [] = tbls"
| "tables_loop tbls (tbl # rest) =
     (let table_data = rows_loop [] (css [''tr''] tbl);
          tbls' = (if table_data \<noteq> [] then tbls @ [table_data] else tbls)
      in if length tbls' \<ge> 3 then tbls' else tables_loop tbls' rest)"

definition extract_content :: "env \<Rightarrow> node \<Rightarrow> string \<Rightarrow> string + content" where
  \<comment> \<open>the part of \<open>_process_section\<close> that fills \<open>content\<close>; the links are collected before
      the images, so an exception on a link comes first\<close>
  "extract_content e element url =
     (case links_loop e url [] (css [''a''] element) of
        Inl msg \<Rightarrow> Inl msg
      | Inr links \<Rightarrow>
          (case images_loop e url [] (css [''img''] element) of
             Inl msg \<Rightarrow> Inl msg
           | Inr images \<Rightarrow>
               Inr \<lparr>c_headings = extract_headings element,
                    c_text = extract_text element,
                    c_links = links,
                    c_images = images,
                    c_lists = lists_loop [] (css [''ul'', ''ol''] element),
                    c_tables = tables_loop [] (css [''table''] element)\<rparr>))"

definition any_in :: "string list \<Rightarrow> string \<Rightarrow> bool" where
  \<comment> \<open>\<open>any(word in combined for word in words)\<close>\<close>
  "any_in words combined = list_ex (\<lambda>word. py_in word combined) words"

definition none_has_no :: "string \<Rightarrow> string" where
  \<comment> \<open>the text of the \<open>AttributeError\<close> for a method called on \<open>None\<close>\<close>
  "none_has_no method =
     [CHR 0x27] @ ''NoneType'' @ [CHR 0x27] @ '' object has no attribute ''
       @ [CHR 0x27] @ method @ [CHR 0x27]"

definition detect_section_type :: "node \<Rightarrow> content \<Rightarrow> string + string" where
  \<comment> \<open>\<open>Inl\<close>: the \<open>AttributeError\<close> that \<open>.split()\<close> or \<open>.lower()\<close> raises on \<open>None\<close>\<close>
  "detect_section_type element cont =
     (case attr_get element ''class'' [] of
        PyNone \<Rightarrow> Inl (none_has_no ''split'')
      | Str cls \<Rightarrow>
          (case attr_get element ''id'' [] of
             PyNone \<Rightarrow> Inl (none_has_no ''lower'')
           | Str ident \<Rightarrow>
               (let classes = py_lower (py_join '' '' (py_split cls));
                    element_id = py_lower ident;
                    combined = classes @ '' '' @ element_id
                in Inr (if any_in [''hero'', ''banner'', ''jumbotron'', ''masthead''] combined
                          then ''hero''
                        else if any_in [''nav'', ''menu'', ''navigation'', ''navbar''] combined
                          then ''nav''
                        else if any_in [''footer'', ''foot''] combined then ''footer''
                        else if any_in [''faq'', ''question'', ''accordion''] combined then ''faq''
                        else if any_in [''pricing'', ''price'', ''plan'', ''tier''] combined
                          then ''pricing''
                        else if any_in [''grid'', ''gallery'', ''cards''] combined then ''grid''
                        else if length (c_lists cont) > 0 then ''list''
                        else ''section''))))"

definition type_labels :: "(string \<times> string) list" where
  "type_labels =
     [(''hero'', ''Hero''), (''nav'', ''Navigation''), (''footer'', ''Footer''), (''faq'', ''FAQ''),
      (''pricing'', ''Pricing''), (''grid'', ''Grid''), (''list'', ''List''),
      (''section'', ''Section''), (''article'', ''Article'')]"

definition create_label :: "content \<Rightarrow> string \<Rightarrow> string" where
  "create_label cont section_type =
     (case c_headings cont of
        h # hs \<Rightarrow> take 80 h
      | [] \<Rightarrow>
          (let base_label = (case map_of type_labels section_type of
                               None \<Rightarrow> ''Section'' | Some l \<Rightarrow> l)
           in if c_text cont \<noteq> []
              then (let words = take 10 (py_split (c_text cont));
                        context = py_join '' '' words
                    in if length context > 15 then base_label @ '': '' @ context else base_label)
              else base_label))"

definition process_section :: "env \<Rightarrow> node \<Rightarrow> string \<Rightarrow> nat \<Rightarrow> string \<Rightarrow> string + sect" where
  "process_section e element section_type idx url =
     (case extract_content e element url of
        Inl msg \<Rightarrow> Inl msg
      | Inr cont \<Rightarrow>
          (case detect_section_type element cont of
             Inl msg \<Rightarrow> Inl msg
           | Inr detected \<Rightarrow>
               (let detected_type =
                      (if section_type = ''header'' then ''hero''
                       else if section_type = ''nav'' then ''nav''
                       else if section_type = ''footer'' then ''footer''
                       else if section_type = ''article'' then ''section''
                       else detected);
                    label = create_label cont detected_type;
                    raw_html = html_of e element;
                    truncated = (length raw_html > 1000);
                    raw_html = (if truncated then take 1000 raw_html @ ''...'' else raw_html)
                in Inr \<lparr>s_id = detected_type @ ''-'' @ str_of_nat idx,
                        s_type = detected_type,
                        s_label = label,
                        s_sourceUrl = url,
                        s_content = cont,
                        s_rawHtml = raw_html,
                        s_truncated = truncated\<rparr>)))"

definition keep_section :: "sect \<Rightarrow> bool" where
  \<comment> \<open>\<open>section["content"]["text"] or section["content"]["headings"]\<close>\<close>
  "keep_section s = (c_text (s_content s) \<noteq> [] \<or> c_headings (s_content s) \<noteq> [])"

section \<open>Heading-based extraction\<close>

text \<open>
  The markup that \<open>_extract_by_headings\<close> assembles from a heading and the siblings after
  it is parsed again; the model takes the \<open>section\<close> element found there to be the wrapper
  with those nodes as its children.
\<close>

fun headings_loop :: "env \<Rightarrow> string \<Rightarrow> sect list \<Rightarrow> (node \<times> node list) list \<Rightarrow> string + sect list"
  where
  "headings_loop e url sections [] = Inr sections"
| "headings_loop e url sections ((heading, siblings) # rest) =
     (let content_elements =
            take 16 (takeWhile (\<lambda>n. tag n \<notin> set [''h1'', ''h2'', ''h3'']) siblings);
          virtual_section = Element ''section'' [] (heading # content_elements)
      in case process_section e virtual_section ''section'' (length sections) url of
           Inl msg \<Rightarrow> Inl msg
         | Inr s \<Rightarrow>
             headings_loop e url (if keep_section s then sections @ [s] else sections) rest)"

definition extract_by_headings :: "env \<Rightarrow> node \<Rightarrow> string \<Rightarrow> string + sect list" where
  "extract_by_headings e parser url =
     (case css_first [''body''] parser of
        None \<Rightarrow> Inr []
      | Some body \<Rightarrow> headings_loop e url [] (take 15 (heading_matches body)))"

section \<open>Landmark extraction\<close>

definition first_landmark :: "string \<Rightarrow> node \<Rightarrow> (string \<times> node) list" where
  \<comment> \<open>\<open>x = parser.css_first(t); if x: landmarks.append((t, x))\<close>\<close>
  "first_landmark t parser = (case css_first [t] parser of None \<Rightarrow> [] | Some n \<Rightarrow> [(t, n)])"

fun articles_loop :: "(string \<times> node) list \<Rightarrow> node list \<Rightarrow> (string \<times> node) list" where
  "articles_loop landmarks [] = landmarks"
| "articles_loop landmarks (article_elem # rest) =
     (if article_elem \<notin> set (map snd landmarks)
      then articles_loop (landmarks @ [(''article'', article_elem)]) rest
      else articles_loop landmarks rest)"

definition find_landmarks :: "node \<Rightarrow> (string \<times> node) list" where
  "find_landmarks parser =
     (let landmarks = first_landmark ''main'' parser @ first_landmark ''article'' parser
                        @ first_landmark ''header'' parser @ first_landmark ''nav'' parser
                        @ first_landmark ''footer'' parser
                        @ map (\<lambda>section_elem. (''section'', section_elem)) (css [''section''] parser);
          landmarks = (if length landmarks < 3 then articles_loop landmarks (css [''article''] parser)
                       else landmarks)
      in if landmarks = [] then first_landmark ''body'' parser else landmarks)"

fun landmarks_loop :: "env \<Rightarrow> string \<Rightarrow> nat \<Rightarrow> sect list \<Rightarrow> (string \<times> node) list \<Rightarrow> string + sect list"
  where
  "landmarks_loop e url idx sections [] = Inr sections"
| "landmarks_loop e url idx sections ((landmark_type, element) # rest) =
     (case process_section e element landmark_type idx url of
        Inl msg \<Rightarrow> Inl msg
      | Inr s \<Rightarrow>
          landmarks_loop e url (idx + 1) (if keep_section s then sections @ [s] else sections) rest)"

definition extract_sections :: "env \<Rightarrow> node \<Rightarrow> string \<Rightarrow> string + sect list" where
  "extract_sections e parser url =
     (case landmarks_loop e url 0 [] (find_landmarks parser) of
        Inl msg \<Rightarrow> Inl msg
      | Inr sections \<Rightarrow>
          if length sections < 3
          then (case extract_by_headings e parser url of
                  Inl msg \<Rightarrow> Inl msg
                | Inr heading_sections \<Rightarrow> Inr (deduplicate_sections (sections @ heading_sections)))
          else Inr (deduplicate_sections sections))"

section \<open>The fetch pass\<close>

definition err :: "string \<Rightarrow> string \<Rightarrow> scrape_error" where
  \<comment> \<open>an error entry with the keys \<open>message\<close> and \<open>phase\<close> only\<close>
  "err msg phase = \<lparr>e_message = msg, e_phase = phase, e_suggestion = None\<rparr>"

definition start_interactions :: "string \<Rightarrow> interactions" where
  "start_interactions url = \<lparr>i_clicks = [], i_scrolls = 0, i_pages = [url]\<rparr>"

definition add_error :: "scrape_error \<Rightarrow> pass_result \<Rightarrow> pass_result" where
  \<comment> \<open>\<open>result["errors"].append(...)\<close>\<close>
  "add_error x result = result\<lparr>p_errors := p_errors result @ [x]\<rparr>"

definition static_scrape :: "env \<Rightarrow> string \<Rightarrow> pass_result" where
  "static_scrape e url =
     (let result = \<lparr>p_meta = [''strategy'' \<mapsto> Str ''static''], p_sections = [],
                     p_interactions = start_interactions url, p_errors = []\<rparr>
      in case fetch e url of
           FetchHTTPStatusError status_code reason_phrase \<Rightarrow>
             add_error \<lparr>e_message = ''HTTP '' @ str_of_nat status_code @ '': '' @ reason_phrase,
                        e_phase = ''fetch'',
                        e_suggestion =
                          Some ''Site may be blocking automated requests. Try JS rendering.''\<rparr>
               result
         | FetchTimeout \<Rightarrow> add_error (err ''Request timed out after 30 seconds'' ''fetch'') result
         | FetchException msg \<Rightarrow> add_error (err msg ''fetch'') result
         | FetchOk parser \<Rightarrow>
             (case extract_meta e parser url of
                Inl msg \<Rightarrow> add_error (err msg ''fetch'') result
              | Inr m \<Rightarrow>
                  (let result = result\<lparr>p_meta := m(''strategy'' \<mapsto> Str ''static'')\<rparr>
                   in case extract_sections e parser url of
                        Inl msg \<Rightarrow> add_error (err msg ''fetch'') result
                      | Inr sections \<Rightarrow> result\<lparr>p_sections := sections\<rparr>)))"

section \<open>The render pass\<close>

definition max_scrolls :: nat where
  "max_scrolls = 3"

definition max_pages :: nat where
  "max_pages = 3"

definition perform_clicks :: "browser_run \<Rightarrow> pass_result \<Rightarrow> pass_result" where
  "perform_clicks run result =
     result\<lparr>p_interactions := (p_interactions result)\<lparr>i_clicks := b_clicks run\<rparr>\<rparr>"

fun scrolls_loop :: "(nat \<Rightarrow> scroll_round) \<Rightarrow> nat \<Rightarrow> nat \<Rightarrow> nat \<Rightarrow> nat \<times> string option" where
  \<comment> \<open>rounds left, the round \<open>i\<close>, \<open>scrolls\<close> so far; the result is \<open>scrolls\<close> and the message
      of the exception that ended the loop, if one did\<close>
  "scrolls_loop obs 0 i scrolls = (scrolls, None)"
| "scrolls_loop obs (Suc k) i scrolls =
     (case obs i of
        ScrollRaised msg \<Rightarrow> (scrolls, Some msg)
      | Heights prev_height new_height \<Rightarrow>
          if new_height = prev_height then (scrolls + 1, None)
          else scrolls_loop obs k (i + 1) (scrolls + 1))"

definition perform_scrolls :: "browser_run \<Rightarrow> pass_result \<Rightarrow> pass_result" where
  "perform_scrolls run result =
     (case scrolls_loop (b_scroll run) max_scrolls 0 0 of
        (scrolls, raised) \<Rightarrow>
          (let result = (case raised of
                           None \<Rightarrow> result
                         | Some msg \<Rightarrow> add_error (err (''Scroll error: '' @ msg) ''scroll'') result)
           in result\<lparr>p_interactions := (p_interactions result)\<lparr>i_scrolls := scrolls\<rparr>\<rparr>))"

fun pagination_loop :: "(nat \<Rightarrow> pag_step) \<Rightarrow> nat \<Rightarrow> nat \<Rightarrow> string list \<Rightarrow> string list \<times> string option"
  where
  \<comment> \<open>rounds left, the round \<open>page_num\<close>, \<open>visited_pages\<close> so far\<close>
  "pagination_loop obs 0 page_num visited_pages = (visited_pages, None)"
| "pagination_loop obs (Suc k) page_num visited_pages =
     (case obs page_num of
        NoNextLink \<Rightarrow> (visited_pages, None)
      | PagRaised msg \<Rightarrow> (visited_pages, Some msg)
      | NextLink next_url clicked \<Rightarrow>
          (let visited_pages =
                 (case next_url of
                    None \<Rightarrow> visited_pages
                  | Some u \<Rightarrow> if u \<notin> set visited_pages then visited_pages @ [u]
                              else visited_pages)
           in if clicked then pagination_loop obs k (page_num + 1) visited_pages
              else (visited_pages, None)))"

definition follow_pagination :: "browser_run \<Rightarrow> pass_result \<Rightarrow> string \<Rightarrow> pass_result" where
  "follow_pagination run result base_url =
     (case pagination_loop (b_pagination run) (max_pages - 1) 0 [base_url] of
        (visited_pages, raised) \<Rightarrow>
          (let result = (case raised of
                           None \<Rightarrow> result
                         | Some msg \<Rightarrow>
                             add_error (err (''Pagination error: '' @ msg) ''pagination'') result)
           in result\<lparr>p_interactions := (p_interactions result)\<lparr>i_pages := visited_pages\<rparr>\<rparr>))"

definition js_session :: "env \<Rightarrow> browser_run \<Rightarrow> string \<Rightarrow> pass_result \<Rightarrow> pass_result" where
  \<comment> \<open>the inner \<open>try\<close> of \<open>_js_scrape\<close> with its two handlers\<close>
  "js_session e run url result =
     (case b_navigate run of
        TimedOut msg \<Rightarrow> add_error (err (''Timeout: '' @ msg) ''render'') result
      | Failed msg \<Rightarrow> add_error (err msg ''js_scrape'') result
      | Done u \<Rightarrow>
          (let result = perform_clicks run result;
               result = perform_scrolls run result;
               result = follow_pagination run result url
           in case b_content run of
                TimedOut msg \<Rightarrow> add_error (err (''Timeout: '' @ msg) ''render'') result
              | Failed msg \<Rightarrow> add_error (err msg ''js_scrape'') result
              | Done parser \<Rightarrow>
                  (case extract_meta e parser url of
                     Inl msg \<Rightarrow> add_error (err msg ''js_scrape'') result
                   | Inr m \<Rightarrow>
                       (let result = result\<lparr>p_meta := m(''strategy'' \<mapsto> Str ''js'')\<rparr>
                        in case extract_sections e parser url of
                             Inl msg \<Rightarrow> add_error (err msg ''js_scrape'') result
                           | Inr sections \<Rightarrow> result\<lparr>p_sections := sections\<rparr>))))"

definition js_scrape :: "env \<Rightarrow> string \<Rightarrow> pass_result" where
  "js_scrape e url =
     (let result = \<lparr>p_meta = [''strategy'' \<mapsto> Str ''js''], p_sections = [],
                     p_interactions = start_interactions url, p_errors = []\<rparr>;
          run = browser e url
      in if \<not> playwright_available e
         then add_error
                (err ''Playwright not installed. Run: pip install playwright && playwright install chromium''
                     ''playwright_check'')
                result
         else (case b_startup run of
                 Some msg \<Rightarrow> add_error (err msg ''playwright'') result
               | None \<Rightarrow>
                   (let result = js_session e run url result
                    in case b_close run of
                         None \<Rightarrow> result
                       | Some msg \<Rightarrow> add_error (err msg ''playwright'') result)))"

section \<open>The orchestrator\<close>

definition js_heavy_domains :: "string list" where
  "js_heavy_domains =
     [''wikipedia.org'', ''wikimedia.org'', ''medium.com'', ''vercel.com'', ''twitter.com'',
      ''x.com'', ''reddit.com'', ''linkedin.com'', ''instagram.com'', ''facebook.com'',
      ''youtube.com'', ''netflix.com'', ''airbnb.com'', ''uber.com'']"

definition should_force_js :: "string \<Rightarrow> bool" where
  "should_force_js domain = list_ex (\<lambda>d. py_in d domain) js_heavy_domains"

definition start_result :: "env \<Rightarrow> string \<Rightarrow> scrape_result" where
  \<comment> \<open>the dictionary \<open>scrape\<close> starts from\<close>
  "start_result e url =
     \<lparr>r_url = url,
      r_scrapedAt = utc_now e,
      r_meta = [''title'' \<mapsto> Str [], ''description'' \<mapsto> Str [], ''language'' \<mapsto> Str ''en'',
                ''canonical'' \<mapsto> PyNone, ''strategy'' \<mapsto> Str ''static''],
      r_sections = [],
      r_interactions = start_interactions url,
      r_errors = []\<rparr>"

definition update_result :: "scrape_result \<Rightarrow> pass_result \<Rightarrow> scrape_result" where
  \<comment> \<open>\<open>result.update(pass_result)\<close>: the four keys of the pass replace those of the result\<close>
  "update_result result pass =
     result\<lparr>r_meta := p_meta pass, r_sections := p_sections pass,
            r_interactions := p_interactions pass, r_errors := p_errors pass\<rparr>"

definition set_strategy :: "string \<Rightarrow> scrape_result \<Rightarrow> scrape_result" where
  \<comment> \<open>\<open>result["meta"]["strategy"] = s\<close>\<close>
  "set_strategy s result = result\<lparr>r_meta := (r_meta result)(''strategy'' \<mapsto> Str s)\<rparr>"

definition merge_js :: "scrape_result \<Rightarrow> pass_result \<Rightarrow> scrape_result" where
  \<comment> \<open>the four \<open>if\<close> statements of \<open>scrape\<close> under "Merge results, preferring JS results"\<close>
  "merge_js result js_result =
     (let result = (if p_sections js_result \<noteq> []
                       \<and> length (p_sections js_result) > length (r_sections result)
                    then result\<lparr>r_sections := p_sections js_result\<rparr> else result);
          result = (if (case p_meta js_result ''title'' of None \<Rightarrow> False | Some v \<Rightarrow> truthy v)
                    then set_strategy ''js'' (result\<lparr>r_meta := r_meta result ++ p_meta js_result\<rparr>)
                    else result);
          result = result\<lparr>r_interactions := p_interactions js_result\<rparr>;
          result = (if p_errors js_result \<noteq> []
                    then result\<lparr>r_errors := r_errors result @ p_errors js_result\<rparr> else result)
      in result)"

definition scrape_try :: "env \<Rightarrow> string \<Rightarrow> scrape_result \<Rightarrow> string + scrape_result" where
  \<comment> \<open>the \<open>try\<close> block of \<open>scrape\<close>; \<open>Inl\<close> is the exception of \<open>urlparse\<close>, raised before
      the result is touched\<close>
  "scrape_try e url result =
     (case netloc e url of
        Inl msg \<Rightarrow> Inl msg
      | Inr nl \<Rightarrow>
          (let domain = py_lower nl;
               force_js = should_force_js domain
           in if force_js \<and> playwright_available e
              then Inr (update_result (set_strategy ''js'' result) (js_scrape e url))
              else (let result = update_result result (static_scrape e url);
                        needs_js = needs_js_rendering result
                    in if needs_js \<and> playwright_available e
                       then (let result = set_strategy ''js'' result;
                                 result = result\<lparr>r_errors := r_errors result @
                                            [err ''Static scraping insufficient, using JS rendering''
                                                 ''fallback_decision'']\<rparr>
                             in Inr (merge_js result (js_scrape e url)))
                       else if needs_js \<and> \<not> playwright_available e
                       then Inr (result\<lparr>r_errors := r_errors result @
                                   [err ''JS rendering recommended but Playwright not installed. Run: pip install playwright && playwright install chromium''
                                        ''playwright_check'']\<rparr>)
                       else Inr result)))"

definition scrape :: "env \<Rightarrow> string \<Rightarrow> scrape_result" where
  "scrape e url =
     (let result = start_result e url
      in case scrape_try e url result of
           Inl msg \<Rightarrow> result\<lparr>r_errors := r_errors result @ [err msg ''scrape'']\<rparr>
         | Inr result' \<Rightarrow> result')"

section \<open>The fallback path\<close>

definition fallback_taken :: "env \<Rightarrow> string \<Rightarrow> bool" where
  \<comment> \<open>the branch of \<open>scrape\<close> that runs the render pass after the fetch pass\<close>
  "fallback_taken e url =
     (case netloc e url of
        Inl msg \<Rightarrow> False
      | Inr nl \<Rightarrow>
          \<not> (should_force_js (py_lower nl) \<and> playwright_available e)
          \<and> needs_js_rendering (update_result (start_result e url) (static_scrape e url))
          \<and> playwright_available e)"

definition fallback_error :: scrape_error where
  \<comment> \<open>the entry appended before the render pass starts\<close>
  "fallback_error = err ''Static scraping insufficient, using JS rendering'' ''fallback_decision''"

definition meta_keys :: "string set" where
  \<comment> \<open>the keys \<open>_extract_meta\<close> sets\<close>
  "meta_keys = {''title'', ''description'', ''language'', ''canonical''}"

section \<open>Sample inputs\<close>

definition sample_section :: "string \<Rightarrow> string list \<Rightarrow> string \<Rightarrow> sect" where
  \<comment> \<open>a section with the given id, headings and text and nothing else\<close>
  "sample_section ident hs t =
     \<lparr>s_id = ident, s_type = ''section'', s_label = ''Section'',
      s_sourceUrl = ''https://example.org/'',
      s_content = \<lparr>c_headings = hs, c_text = t, c_links = [], c_images = [], c_lists = [],
                   c_tables = []\<rparr>,
      s_rawHtml = [], s_truncated = False\<rparr>"

definition sample_result :: "sect list \<Rightarrow> scrape_error list \<Rightarrow> scrape_result" where
  "sample_result sections errors =
     \<lparr>r_url = ''https://example.org/'', r_scrapedAt = ''2024-01-01T00:00:00+00:00'',
      r_meta = [''strategy'' \<mapsto> Str ''static''], r_sections = sections,
      r_interactions = start_interactions ''https://example.org/'', r_errors = errors\<rparr>"

definition noise_section :: sect where
  "noise_section = sample_section ''section-0'' [] []"

definition repeated_sections :: "sect list" where
  "repeated_sections =
     [sample_section ''section-0'' [] ''Hello World'',
      sample_section ''section-1'' [] ''  hello world '',
      sample_section ''section-2'' [] [],
      sample_section ''section-3'' [''Heading''] []]"

definition result_one_section :: scrape_result where
  "result_one_section = sample_result [sample_section ''section-0'' [] ''Hello World''] []"

definition result_five_sections :: scrape_result where
  "result_five_sections =
     sample_result (map (\<lambda>i. sample_section (''section-'' @ str_of_nat i) [] (replicate 100 CHR ''a''))
                        [0..<5]) []"

definition result_blocked :: scrape_result where
  "result_blocked = sample_result [] [err ''HTTP 403: Forbidden'' ''fetch'']"

definition sample_url :: string where
  "sample_url = ''https://example.org/''"

definition sample_env :: "fetch_outcome \<Rightarrow> browser_run \<Rightarrow> bool \<Rightarrow> env" where
  \<comment> \<open>the fetch outcome, the browser session and the availability flag are given; links are
      taken to be absolute already and markup is not serialised\<close>
  "sample_env fetched run available =
     \<lparr>urljoin = (\<lambda>base href. Inr href), html_of = (\<lambda>n. []), netloc = (\<lambda>url. Inr ''example.org''),
      utc_now = ''2024-01-01T00:00:00+00:00'', playwright_available = available,
      fetch = (\<lambda>url. fetched), browser = (\<lambda>url. run)\<rparr>"

definition title_children :: "string \<Rightarrow> string \<Rightarrow> string \<Rightarrow> node list" where
  "title_children t1 t2 t3 =
     [Element ''h1'' [] [TextNode ''Title''], Element ''p'' [] [TextNode t1],
      Element ''p'' [] [TextNode t2], Element ''p'' [] [TextNode t3]]"

definition title_page :: "string \<Rightarrow> string \<Rightarrow> string \<Rightarrow> node" where
  \<comment> \<open>a page whose body holds a \<open>main\<close> with one \<open>h1\<close> and three paragraphs\<close>
  "title_page t1 t2 t3 =
     Element ''html'' []
       [Element ''head'' [] [Element ''title'' [] [TextNode ''Sample'']],
        Element ''body'' [] [Element ''main'' [] (title_children t1 t2 t3)]]"

definition sample_page :: node where
  "sample_page = title_page ''First paragraph.'' ''Second paragraph.'' ''Third paragraph.''"

definition listing_page :: node where
  \<comment> \<open>a page with two \<open>section\<close> elements\<close>
  "listing_page =
     Element ''html'' []
       [Element ''head'' [] [Element ''title'' [] [TextNode ''Listing'']],
        Element ''body'' []
          [Element ''section'' []
             [Element ''h2'' [] [TextNode ''First''],
              Element ''p'' [] [TextNode ''First item text here.'']],
           Element ''section'' []
             [Element ''h2'' [] [TextNode ''Second''],
              Element ''p'' [] [TextNode ''Second item text here.'']]]]"

definition split_page :: node where
  \<comment> \<open>a \<open>main\<close> whose heading comes after two of its three paragraphs\<close>
  "split_page =
     Element ''html'' []
       [Element ''head'' [] [Element ''title'' [] [TextNode ''Split'']],
        Element ''body'' []
          [Element ''main'' []
             [Element ''p'' [] [TextNode ''Opening paragraph one.''],
              Element ''p'' [] [TextNode ''Opening paragraph two.''],
              Element ''h1'' [] [TextNode ''Title''],
              Element ''p'' [] [TextNode ''Closing paragraph.'']]]]"

definition heading_last_page :: node where
  \<comment> \<open>a \<open>main\<close> with the three paragraphs of \<open>sample_page\<close> and the heading after them\<close>
  "heading_last_page =
     Element ''html'' []
       [Element ''head'' [] [Element ''title'' [] [TextNode ''Sample'']],
        Element ''body'' []
          [Element ''main'' []
             [Element ''p'' [] [TextNode ''First paragraph.''],
              Element ''p'' [] [TextNode ''Second paragraph.''],
              Element ''p'' [] [TextNode ''Third paragraph.''],
              Element ''h1'' [] [TextNode ''Title'']]]]"

definition timed_out_run :: browser_run where
  \<comment> \<open>a session whose navigation times out\<close>
  "timed_out_run =
     \<lparr>b_startup = None, b_navigate = TimedOut ''Timeout 30000ms exceeded.'', b_clicks = [],
      b_scroll = (\<lambda>i. Heights 0 0), b_pagination = (\<lambda>i. NoNextLink),
      b_content = Failed ''no page'', b_close = None\<rparr>"

definition paginated_run :: browser_run where
  \<comment> \<open>a session that follows one next link and ends on \<open>listing_page\<close>\<close>
  "paginated_run =
     \<lparr>b_startup = None, b_navigate = Done (), b_clicks = [],
      b_scroll = (\<lambda>i. Heights 100 100),
      b_pagination = (\<lambda>i. if i = 0 then NextLink (Some ''https://example.org/?page=2'') True
                           else NoNextLink),
      b_content = Done listing_page, b_close = None\<rparr>"

definition env_render_fails :: env where
  "env_render_fails = sample_env (FetchOk sample_page) timed_out_run True"

definition env_paginated :: env where
  "env_paginated = sample_env (FetchOk sample_page) paginated_run True"

definition env_forbidden :: env where
  "env_forbidden = sample_env (FetchHTTPStatusError 403 ''Forbidden'') timed_out_run True"

definition env_split :: env where
  "env_split = sample_env (FetchOk split_page) timed_out_run False"

definition env_heading_last :: env where
  "env_heading_last = sample_env (FetchOk heading_last_page) timed_out_run False"

definition env_both_fail :: env where
  \<comment> \<open>the fetch times out and so does the navigation of the render pass\<close>
  "env_both_fail = sample_env FetchTimeout timed_out_run True"

section \<open>Strings: basic facts\<close>

lemma py_in_sublist: "py_in sub s \<longleftrightarrow> sublist sub s"
  by (induction s) (auto simp: sublist_Cons_right)

lemma py_in_iff: "py_in sub s \<longleftrightarrow> (\<exists>ps ss. s = ps @ sub @ ss)"
  by (simp add: py_in_sublist sublist_def)

section \<open>Deduplication: the loop and the rule\<close>

lemma dedup_loop_rule:
  "seen = fingerprint ` set earlier - {[]} \<Longrightarrow> dedup_loop seen ss = dedup_rule earlier ss"
proof (induction ss arbitrary: seen earlier)
  case Nil
  then show ?case by simp
next
  case (Cons s ss)
  have a: "insert (fingerprint s) seen = fingerprint ` set (earlier @ [s]) - {[]}"
    if "fingerprint s \<noteq> []"
    using that Cons.prems by auto
  have b: "seen = fingerprint ` set (earlier @ [s]) - {[]}"
    if "fingerprint s = [] \<or> fingerprint s \<in> seen"
    using that Cons.prems by auto
  show ?case
  proof (cases "fingerprint s \<noteq> [] \<and> fingerprint s \<notin> seen")
    case True
    then show ?thesis using Cons.IH[OF a] Cons.prems by (auto simp: Let_def)
  next
    case False
    then have "fingerprint s = [] \<or> fingerprint s \<in> seen" by auto
    from Cons.IH[OF b[OF this]] False Cons.prems show ?thesis by (auto simp: Let_def)
  qed
qed

lemma dedup_loop_again:
  "seen2 \<subseteq> seen1 \<Longrightarrow> dedup_loop seen2 (dedup_loop seen1 xs) = dedup_loop seen1 xs"
proof (induction xs arbitrary: seen1 seen2)
  case Nil
  then show ?case by simp
next
  case (Cons s ss)
  have i: "insert (fingerprint s) seen2 \<subseteq> insert (fingerprint s) seen1"
    using Cons.prems by auto
  show ?case
    using Cons.IH[OF i] Cons.IH[OF Cons.prems] Cons.prems
    by (auto simp: Let_def)
qed

text \<open>
  C7, as the code has it. The fingerprint of a section is the first 100 characters of its
  text, lowercased and trimmed. A sequence of two or more sections is filtered by the rule:
  the first section of each non-empty fingerprint stays, later ones with that fingerprint go,
  and a section with an empty fingerprint stays exactly when it has a heading. A sequence of
  at most one section is returned as it is.
\<close>

theorem deduplicate_sections_rule:
  "fingerprint s = py_strip (py_lower (take 100 (c_text (s_content s))))
   \<and> (2 \<le> length xs \<longrightarrow> deduplicate_sections xs = dedup_rule [] xs)
   \<and> (length xs \<le> 1 \<longrightarrow> deduplicate_sections xs = xs)"
  by (simp add: fingerprint_def deduplicate_sections_def dedup_loop_rule)

theorem deduplicate_sections_rule_witness:
  "2 \<le> length repeated_sections
   \<and> deduplicate_sections repeated_sections = dedup_rule [] repeated_sections
   \<and> dedup_rule [] repeated_sections
       = [sample_section ''section-0'' [] ''Hello World'',
          sample_section ''section-3'' [''Heading''] []]
   \<and> length [noise_section] \<le> 1
   \<and> deduplicate_sections [noise_section] = [noise_section]"
proof -
  have two: "2 \<le> length repeated_sections" by code_simp
  have one: "length [noise_section] \<le> 1" by simp
  have val: "dedup_rule [] repeated_sections
       = [sample_section ''section-0'' [] ''Hello World'',
          sample_section ''section-3'' [''Heading''] []]"
    by code_simp
  from deduplicate_sections_rule [of noise_section repeated_sections] two
  have "deduplicate_sections repeated_sections = dedup_rule [] repeated_sections" by blast
  moreover from deduplicate_sections_rule [of noise_section "[noise_section]"] one
  have "deduplicate_sections [noise_section] = [noise_section]" by blast
  ultimately show ?thesis using two one val by blast
qed

text \<open>
  C7, as the specification words it, fails on a sequence of one section: a section with an
  empty fingerprint and no heading is kept.
\<close>

theorem deduplicate_sections_keeps_single_noise:
  "fingerprint noise_section = []
   \<and> c_headings (s_content noise_section) = []
   \<and> deduplicate_sections [noise_section] = [noise_section]
   \<and> dedup_rule [] [noise_section] = []"
  by code_simp

text \<open>
  C9. Deduplication is idempotent: for every sequence of sections, deduplicating the
  deduplicated sequence changes nothing.
\<close>

theorem deduplicate_sections_idempotent:
  "deduplicate_sections (deduplicate_sections xs) = deduplicate_sections xs"
  by (simp add: deduplicate_sections_def dedup_loop_again)

theorem deduplicate_sections_idempotent_witness:
  "deduplicate_sections (deduplicate_sections repeated_sections)
     = deduplicate_sections repeated_sections
   \<and> deduplicate_sections repeated_sections
       = [sample_section ''section-0'' [] ''Hello World'',
          sample_section ''section-3'' [''Heading''] []]"
proof -
  have "deduplicate_sections repeated_sections
       = [sample_section ''section-0'' [] ''Hello World'',
          sample_section ''section-3'' [''Heading''] []]"
    by code_simp
  with deduplicate_sections_idempotent [of repeated_sections] show ?thesis by simp
qed

section \<open>The needs-rendering decision: properties\<close>

lemma sum_list_const: "\<forall>x\<in>set xs. f x = (c::nat) \<Longrightarrow> sum_list (map f xs) = length xs * c"
  by (induction xs) auto

text \<open>
  C3. If some recorded error message contains one of the tokens 403, 429, Forbidden,
  Too Many Requests, rendering is not needed, whatever the sections are; otherwise it is
  needed exactly when there are fewer than 2 sections or the text lengths of the sections
  sum to less than 200. A result with exactly 1 section and no errors needs rendering; a
  result with 5 sections of 100 characters of text each does not.
\<close>

theorem needs_js_rendering_decision:
  "needs_js_rendering result =
     (if (\<exists>e \<in> set (r_errors result).
            \<exists>block \<in> set [''403'', ''429'', ''Forbidden'', ''Too Many Requests''].
              \<exists>ps ss. e_message e = ps @ block @ ss)
      then False
      else (length (r_sections result) < 2
            \<or> (\<Sum>s\<leftarrow>r_sections result. length (c_text (s_content s))) < 200))
   \<and> (length (r_sections r1) = 1 \<and> r_errors r1 = [] \<longrightarrow> needs_js_rendering r1)
   \<and> (length (r_sections r5) = 5
        \<and> (\<forall>s \<in> set (r_sections r5). length (c_text (s_content s)) = 100)
        \<longrightarrow> \<not> needs_js_rendering r5)"
proof (intro conjI impI)
  show "needs_js_rendering result =
     (if (\<exists>e \<in> set (r_errors result).
            \<exists>block \<in> set [''403'', ''429'', ''Forbidden'', ''Too Many Requests''].
              \<exists>ps ss. e_message e = ps @ block @ ss)
      then False
      else (length (r_sections result) < 2
            \<or> (\<Sum>s\<leftarrow>r_sections result. length (c_text (s_content s))) < 200))"
    unfolding needs_js_rendering_def Let_def list_ex_iff blocked_errors_def py_in_iff
    by auto
next
  assume "length (r_sections r1) = 1 \<and> r_errors r1 = []"
  then show "needs_js_rendering r1"
    by (simp add: needs_js_rendering_def)
next
  assume a: "length (r_sections r5) = 5
    \<and> (\<forall>s \<in> set (r_sections r5). length (c_text (s_content s)) = 100)"
  then have "(\<Sum>s\<leftarrow>r_sections r5. length (c_text (s_content s))) = 500"
    using sum_list_const [of "r_sections r5" "\<lambda>s. length (c_text (s_content s))" 100]
    by simp
  with a show "\<not> needs_js_rendering r5"
    by (simp add: needs_js_rendering_def Let_def)
qed

theorem needs_js_rendering_decision_witness:
  "\<not> needs_js_rendering result_blocked
   \<and> needs_js_rendering result_one_section
   \<and> \<not> needs_js_rendering result_five_sections"
proof -
  have blocked: "\<exists>e \<in> set (r_errors result_blocked).
            \<exists>block \<in> set [''403'', ''429'', ''Forbidden'', ''Too Many Requests''].
              \<exists>ps ss. e_message e = ps @ block @ ss"
  proof -
    have "py_in ''403'' ''HTTP 403: Forbidden''" by code_simp
    then have "\<exists>ps ss. ''HTTP 403: Forbidden'' = ps @ ''403'' @ ss"
      by (simp only: py_in_iff)
    then show ?thesis
      by (simp add: result_blocked_def sample_result_def err_def)
  qed
  have one: "length (r_sections result_one_section) = 1 \<and> r_errors result_one_section = []"
    by code_simp
  have five: "length (r_sections result_five_sections) = 5
        \<and> (\<forall>s \<in> set (r_sections result_five_sections). length (c_text (s_content s)) = 100)"
    by code_simp
  from needs_js_rendering_decision [of result_blocked result_one_section result_five_sections]
    blocked one five
  show ?thesis by presburger
qed

section \<open>Strings: stripping\<close>

lemma lower_char_not_space: "\<not> is_space c \<Longrightarrow> \<not> is_space (lower_char c)"
  by (auto simp: is_space_def lower_char_def Let_def)

lemma py_strip_prefix: "\<exists>ws. dropWhile is_space t = py_strip t @ ws"
proof -
  let ?u = "dropWhile is_space t"
  have "rev (takeWhile is_space (rev ?u) @ dropWhile is_space (rev ?u)) = ?u"
    by (simp only: takeWhile_dropWhile_id rev_rev_ident)
  then have "rev (dropWhile is_space (rev ?u)) @ rev (takeWhile is_space (rev ?u)) = ?u"
    by (simp only: rev_append)
  then have "?u = py_strip t @ rev (takeWhile is_space (rev ?u))"
    by (simp only: py_strip_def)
  then show ?thesis by blast
qed

lemma py_strip_hd: "py_strip t \<noteq> [] \<Longrightarrow> \<not> is_space (hd (py_strip t))"
proof -
  assume n: "py_strip t \<noteq> []"
  obtain ws where w: "dropWhile is_space t = py_strip t @ ws" using py_strip_prefix by blast
  with n have "dropWhile is_space t \<noteq> []" by auto
  then have "\<not> is_space (hd (dropWhile is_space t))" by (rule hd_dropWhile)
  with w n show ?thesis by simp
qed

lemma py_strip_nonempty: "s \<noteq> [] \<Longrightarrow> \<not> is_space (hd s) \<Longrightarrow> py_strip s \<noteq> []"
proof -
  assume s: "s \<noteq> []" and h: "\<not> is_space (hd s)"
  then have d: "dropWhile is_space s = s" by (cases s) auto
  have "hd s \<in> set (rev s)" using s by simp
  with h have "dropWhile is_space (rev s) \<noteq> []" by (auto simp: dropWhile_eq_Nil_conv)
  with d show ?thesis by (simp add: py_strip_def)
qed

lemma fingerprint_nonempty:
  assumes "c_text (s_content s) = py_strip t @ rest" and "py_strip t \<noteq> []"
  shows "fingerprint s \<noteq> []"
proof -
  let ?a = "py_strip t"
  from assms(2) obtain c cs where a: "?a = c # cs" by (cases ?a) auto
  with py_strip_hd [OF assms(2)] have c: "\<not> is_space c" by simp
  have "py_lower (take 100 (c_text (s_content s))) = lower_char c # py_lower (take 99 (cs @ rest))"
    using assms(1) a by (simp add: py_lower_def)
  then show ?thesis
    using py_strip_nonempty [of "lower_char c # py_lower (take 99 (cs @ rest))"]
      lower_char_not_space [OF c]
    by (simp add: fingerprint_def)
qed

section \<open>The pages of a result\<close>

lemma pagination_loop_pages:
  "\<exists>more. fst (pagination_loop obs k page_num (url # visited)) = url # more"
proof (induction k arbitrary: page_num visited)
  case 0
  then show ?case by simp
next
  case (Suc k)
  show ?case
  proof (cases "obs page_num")
    case NoNextLink
    then show ?thesis by simp
  next
    case (PagRaised msg)
    then show ?thesis by simp
  next
    case (NextLink next_url clicked)
    then show ?thesis
      using Suc.IH [of "Suc page_num" visited] Suc.IH [of "Suc page_num" "visited @ [the next_url]"]
      by (auto simp: Let_def split: option.splits)
  qed
qed

lemma add_error_interactions [simp]: "p_interactions (add_error x r) = p_interactions r"
  by (simp add: add_error_def)

lemma add_error_sections [simp]: "p_sections (add_error x r) = p_sections r"
  by (simp add: add_error_def)

lemma add_error_meta [simp]: "p_meta (add_error x r) = p_meta r"
  by (simp add: add_error_def)

lemma follow_pagination_pages:
  "\<exists>more. i_pages (p_interactions (follow_pagination run r url)) = url # more"
proof -
  obtain more where m: "fst (pagination_loop (b_pagination run) (max_pages - 1) 0 [url]) = url # more"
    using pagination_loop_pages [of "b_pagination run" "max_pages - 1" 0 url "[]"] by blast
  then show ?thesis
    by (cases "pagination_loop (b_pagination run) (max_pages - 1) 0 [url]")
       (simp add: follow_pagination_def Let_def)
qed

lemma follow_pagination_sections [simp]: "p_sections (follow_pagination run r url) = p_sections r"
  by (simp add: follow_pagination_def Let_def split: prod.splits option.splits)

lemma perform_scrolls_sections [simp]: "p_sections (perform_scrolls run r) = p_sections r"
  by (simp add: perform_scrolls_def Let_def split: prod.splits option.splits)

lemma perform_clicks_sections [simp]: "p_sections (perform_clicks run r) = p_sections r"
  by (simp add: perform_clicks_def)

lemma perform_scrolls_pages [simp]:
  "i_pages (p_interactions (perform_scrolls run r)) = i_pages (p_interactions r)"
  by (simp add: perform_scrolls_def Let_def split: prod.splits option.splits)

lemma perform_clicks_pages [simp]:
  "i_pages (p_interactions (perform_clicks run r)) = i_pages (p_interactions r)"
  by (simp add: perform_clicks_def)

lemma js_session_pages:
  assumes "i_pages (p_interactions r) = [url]"
  shows "\<exists>more. i_pages (p_interactions (js_session e run url r)) = url # more"
proof (cases "b_navigate run")
  case (Done u)
  obtain more where m:
    "i_pages (p_interactions (follow_pagination run (perform_scrolls run (perform_clicks run r)) url))
       = url # more"
    using follow_pagination_pages by blast
  show ?thesis
    using Done m by (simp add: js_session_def Let_def split: attempt.splits sum.splits)
next
  case (TimedOut msg)
  then show ?thesis using assms by (simp add: js_session_def)
next
  case (Failed msg)
  then show ?thesis using assms by (simp add: js_session_def)
qed

lemma js_scrape_pages: "\<exists>more. i_pages (p_interactions (js_scrape e url)) = url # more"
proof -
  let ?r = "\<lparr>p_meta = [''strategy'' \<mapsto> Str ''js''], p_sections = [],
             p_interactions = start_interactions url, p_errors = []\<rparr>"
  have "i_pages (p_interactions ?r) = [url]" by (simp add: start_interactions_def)
  from js_session_pages [OF this, of e "browser e url"]
  obtain more where "i_pages (p_interactions (js_session e (browser e url) url ?r)) = url # more"
    by blast
  then show ?thesis
    by (simp add: js_scrape_def Let_def start_interactions_def split: option.splits)
qed

lemma static_scrape_pages: "i_pages (p_interactions (static_scrape e url)) = [url]"
  by (simp add: static_scrape_def Let_def start_interactions_def split: fetch_outcome.splits sum.splits)

lemma merge_js_interactions [simp]: "r_interactions (merge_js r j) = p_interactions j"
  by (simp add: merge_js_def Let_def set_strategy_def)

lemma merge_js_url [simp]: "r_url (merge_js r j) = r_url r"
  by (simp add: merge_js_def Let_def set_strategy_def)

lemma scrape_try_url: "scrape_try e url r = Inr r' \<Longrightarrow> r_url r' = r_url r"
  by (auto simp: scrape_try_def Let_def update_result_def set_strategy_def split: sum.splits if_splits)

lemma scrape_try_pages:
  "scrape_try e url r = Inr r' \<Longrightarrow> \<exists>more. i_pages (r_interactions r') = url # more"
  using js_scrape_pages [of e url] static_scrape_pages [of e url]
  by (auto simp: scrape_try_def Let_def update_result_def set_strategy_def split: sum.splits if_splits)

text \<open>
  C2. For every URL, on every path through \<open>scrape\<close>, the result carries the requested URL
  and its page list starts with that URL (so it is never empty).
\<close>

theorem scrape_url_pages:
  "r_url (scrape e url) = url \<and> (\<exists>more. i_pages (r_interactions (scrape e url)) = url # more)"
proof (cases "scrape_try e url (start_result e url)")
  case (Inl msg)
  then show ?thesis by (simp add: scrape_def Let_def start_result_def start_interactions_def)
next
  case (Inr r')
  from scrape_try_url [OF Inr] scrape_try_pages [OF Inr] Inr show ?thesis
    by (simp add: scrape_def Let_def start_result_def)
qed

theorem scrape_url_pages_witness:
  "r_url (scrape env_paginated sample_url) = sample_url
   \<and> i_pages (r_interactions (scrape env_paginated sample_url))
       = [sample_url, ''https://example.org/?page=2'']"
proof -
  have "i_pages (r_interactions (scrape env_paginated sample_url))
       = [sample_url, ''https://example.org/?page=2'']"
    by code_simp
  with scrape_url_pages [of env_paginated sample_url] show ?thesis by simp
qed

section \<open>The merge\<close>

lemma dom_extract_meta:
  assumes "extract_meta e parser url = Inr m"
  shows "dom m = meta_keys"
proof -
  from assms obtain t d l c where
    "m = [''title'' \<mapsto> t, ''description'' \<mapsto> d, ''language'' \<mapsto> l, ''canonical'' \<mapsto> c]"
    unfolding extract_meta_def Let_def by (auto split: sum.splits)
  then show ?thesis by (simp add: meta_keys_def insert_commute)
qed

lemma dom_static_meta: "dom (p_meta (static_scrape e url)) \<subseteq> insert ''strategy'' meta_keys"
  by (auto simp: static_scrape_def Let_def dom_extract_meta split: fetch_outcome.splits sum.splits if_splits)

lemma perform_clicks_meta [simp]: "p_meta (perform_clicks run r) = p_meta r"
  by (simp add: perform_clicks_def)

lemma perform_scrolls_meta [simp]: "p_meta (perform_scrolls run r) = p_meta r"
  by (simp add: perform_scrolls_def Let_def split: prod.splits option.splits)

lemma follow_pagination_meta [simp]: "p_meta (follow_pagination run r url) = p_meta r"
  by (simp add: follow_pagination_def Let_def split: prod.splits option.splits)

lemma js_session_meta:
  "p_meta (js_session e run url r) = p_meta r
   \<or> (\<exists>parser m. extract_meta e parser url = Inr m
         \<and> p_meta (js_session e run url r) = m(''strategy'' \<mapsto> Str ''js''))"
  by (auto simp: js_session_def Let_def split: attempt.splits sum.splits)

lemma js_scrape_meta:
  "p_meta (js_scrape e url) = [''strategy'' \<mapsto> Str ''js'']
   \<or> (\<exists>m. dom m = meta_keys \<and> p_meta (js_scrape e url) = m(''strategy'' \<mapsto> Str ''js''))"
proof -
  let ?r = "\<lparr>p_meta = [''strategy'' \<mapsto> Str ''js''], p_sections = [],
             p_interactions = start_interactions url, p_errors = []\<rparr>"
  let ?s = "js_session e (browser e url) url ?r"
  from js_session_meta [of e "browser e url" url ?r]
  consider (kept) "p_meta ?s = p_meta ?r"
    | (set) parser m where "extract_meta e parser url = Inr m"
        "p_meta ?s = m(''strategy'' \<mapsto> Str ''js'')"
    by blast
  then have "p_meta ?s = [''strategy'' \<mapsto> Str ''js'']
     \<or> (\<exists>m. dom m = meta_keys \<and> p_meta ?s = m(''strategy'' \<mapsto> Str ''js''))"
  proof cases
    case kept
    then show ?thesis by simp
  next
    case set
    then show ?thesis using dom_extract_meta by blast
  qed
  then show ?thesis
    by (auto simp: js_scrape_def Let_def split: option.splits)
qed

lemma js_scrape_titled:
  assumes "p_meta (js_scrape e url) ''title'' = Some v"
  shows "dom (p_meta (js_scrape e url)) = insert ''strategy'' meta_keys"
proof -
  from js_scrape_meta [of e url] assms
  obtain m where "dom m = meta_keys" "p_meta (js_scrape e url) = m(''strategy'' \<mapsto> Str ''js'')"
    by auto
  then show ?thesis by simp
qed

lemma map_add_covered: "dom m \<subseteq> dom n \<Longrightarrow> m ++ n = n"
  by (rule ext) (auto simp: map_add_def split: option.splits)

lemma js_scrape_strategy: "p_meta (js_scrape e url) ''strategy'' = Some (Str ''js'')"
  using js_scrape_meta [of e url] by auto

lemma merge_js_sections:
  "r_sections (merge_js r j) =
     (if length (p_sections j) > length (r_sections r) then p_sections j else r_sections r)"
  by (auto simp: merge_js_def Let_def set_strategy_def)

lemma merge_js_errors: "r_errors (merge_js r j) = r_errors r @ p_errors j"
  by (simp add: merge_js_def Let_def set_strategy_def)

lemma merge_js_meta:
  "r_meta (merge_js r j) =
     (if (case p_meta j ''title'' of None \<Rightarrow> False | Some v \<Rightarrow> truthy v)
      then (r_meta r ++ p_meta j)(''strategy'' \<mapsto> Str ''js'') else r_meta r)"
  by (simp add: merge_js_def Let_def set_strategy_def)

lemma scrape_fallback:
  assumes "fallback_taken e url"
  shows "scrape e url =
     merge_js ((set_strategy ''js'' (update_result (start_result e url) (static_scrape e url)))
                 \<lparr>r_errors := p_errors (static_scrape e url) @ [fallback_error]\<rparr>)
              (js_scrape e url)"
  using assms
  by (auto simp: fallback_taken_def scrape_def scrape_try_def Let_def fallback_error_def
        update_result_def set_strategy_def split: sum.splits)

text \<open>
  C4, as the code has it. On the fallback path, with \<open>S\<close> the result of the fetch pass and
  \<open>J\<close> that of the render pass: the sections are those of \<open>J\<close> when \<open>J\<close> has strictly more
  sections than \<open>S\<close>, and those of \<open>S\<close> otherwise; the metadata is that of \<open>J\<close>, whose
  strategy is "js", when the title of \<open>J\<close> is non-empty, and otherwise is that of \<open>S\<close> with
  the strategy set to "js"; the interactions are those of \<open>J\<close>; and the errors are those of
  \<open>S\<close>, then the entry of the fallback decision, then those of \<open>J\<close>.
\<close>

theorem fallback_merge:
  assumes "fallback_taken e url"
  shows "r_sections (scrape e url) =
           (if length (p_sections (js_scrape e url)) > length (p_sections (static_scrape e url))
            then p_sections (js_scrape e url) else p_sections (static_scrape e url))
         \<and> r_meta (scrape e url) =
             (if (case p_meta (js_scrape e url) ''title'' of None \<Rightarrow> False | Some v \<Rightarrow> truthy v)
              then p_meta (js_scrape e url)
              else (p_meta (static_scrape e url))(''strategy'' \<mapsto> Str ''js''))
         \<and> p_meta (js_scrape e url) ''strategy'' = Some (Str ''js'')
         \<and> r_interactions (scrape e url) = p_interactions (js_scrape e url)
         \<and> r_errors (scrape e url) =
             p_errors (static_scrape e url) @ [fallback_error] @ p_errors (js_scrape e url)"
proof -
  let ?S = "static_scrape e url" and ?J = "js_scrape e url"
  have meta: "(p_meta ?S)(''strategy'' \<mapsto> Str ''js'') ++ p_meta ?J = p_meta ?J"
    if "p_meta ?J ''title'' = Some v" for v
  proof (rule map_add_covered)
    show "dom ((p_meta ?S)(''strategy'' \<mapsto> Str ''js'')) \<subseteq> dom (p_meta ?J)"
      using dom_static_meta [of e url] js_scrape_titled [OF that] by auto
  qed
  have strat: "(p_meta ?J)(''strategy'' \<mapsto> Str ''js'') = p_meta ?J"
    using js_scrape_strategy [of e url] by (auto simp: fun_upd_idem_iff)
  show ?thesis
    unfolding scrape_fallback [OF assms]
    by (auto simp: merge_js_sections merge_js_errors merge_js_meta update_result_def set_strategy_def
          meta strat js_scrape_strategy split: option.splits)
qed

theorem fallback_merge_witness:
  "fallback_taken env_paginated sample_url
   \<and> length (p_sections (static_scrape env_paginated sample_url)) = 1
   \<and> length (p_sections (js_scrape env_paginated sample_url)) = 2
   \<and> r_sections (scrape env_paginated sample_url) = p_sections (js_scrape env_paginated sample_url)
   \<and> r_meta (scrape env_paginated sample_url) = p_meta (js_scrape env_paginated sample_url)
   \<and> r_interactions (scrape env_paginated sample_url)
       = p_interactions (js_scrape env_paginated sample_url)
   \<and> r_errors (scrape env_paginated sample_url) = [fallback_error]"
proof -
  have f: "fallback_taken env_paginated sample_url" by code_simp
  have n: "length (p_sections (static_scrape env_paginated sample_url)) = 1"
    "length (p_sections (js_scrape env_paginated sample_url)) = 2"
    by code_simp+
  have t: "p_meta (js_scrape env_paginated sample_url) ''title'' = Some (Str ''Listing'')"
    by code_simp
  have e: "p_errors (static_scrape env_paginated sample_url) = []"
    "p_errors (js_scrape env_paginated sample_url) = []"
    by code_simp+
  from fallback_merge [OF f] n t e show ?thesis using f by simp
qed

text \<open>
  C4, as the specification words it, fails when the fetch and the navigation both time out:
  the render pass has no title, yet the merged metadata is that of the render pass and not
  that of the fetch pass, because the strategy was set to "js" before the render pass ran.
\<close>

theorem fallback_merge_untitled_meta:
  "fallback_taken env_both_fail sample_url
   \<and> p_meta (js_scrape env_both_fail sample_url) ''title'' = None
   \<and> r_meta (scrape env_both_fail sample_url) = p_meta (js_scrape env_both_fail sample_url)
   \<and> r_meta (scrape env_both_fail sample_url) \<noteq> p_meta (static_scrape env_both_fail sample_url)"
proof -
  have f: "fallback_taken env_both_fail sample_url" by code_simp
  have j: "p_meta (js_scrape env_both_fail sample_url) = [''strategy'' \<mapsto> Str ''js'']"
    by (simp add: js_scrape_def js_session_def env_both_fail_def sample_env_def
        timed_out_run_def Let_def)
  have st: "p_meta (static_scrape env_both_fail sample_url) = [''strategy'' \<mapsto> Str ''static'']"
    by (simp add: static_scrape_def env_both_fail_def sample_env_def Let_def)
  have r: "r_meta (scrape env_both_fail sample_url) = [''strategy'' \<mapsto> Str ''js'']"
    unfolding scrape_fallback [OF f]
    by (simp add: merge_js_meta j st update_result_def set_strategy_def)
  have ne: "[''strategy'' \<mapsto> Str ''js''] \<noteq> [''strategy'' \<mapsto> Str ''static'']"
  proof
    assume "[''strategy'' \<mapsto> Str ''js''] = [''strategy'' \<mapsto> Str ''static'']"
    then have "[''strategy'' \<mapsto> Str ''js''] ''strategy''
                 = [''strategy'' \<mapsto> Str ''static''] ''strategy''"
      by (rule arg_cong)
    then show False by simp
  qed
  from f j st r ne show ?thesis by simp
qed

text \<open>
  C5, as the code has it. After a fallback scrape the strategy is "js" whenever the render
  pass was attempted, whichever pass the merge keeps the sections and the metadata of.
\<close>

theorem fallback_strategy:
  assumes "fallback_taken e url"
  shows "r_meta (scrape e url) ''strategy'' = Some (Str ''js'')"
  unfolding scrape_fallback [OF assms]
  by (simp add: merge_js_meta update_result_def set_strategy_def)

theorem fallback_strategy_witness:
  "fallback_taken env_render_fails sample_url
   \<and> r_meta (scrape env_render_fails sample_url) ''strategy'' = Some (Str ''js'')"
proof -
  have f: "fallback_taken env_render_fails sample_url" by code_simp
  from fallback_strategy [OF f] f show ?thesis by simp
qed

text \<open>
  C5, as the specification words it, fails when the render pass times out: the sections and
  every metadata entry of the fetch pass are kept, and the strategy is "js", not "static".
\<close>

theorem fallback_strategy_not_static:
  "fallback_taken env_render_fails sample_url
   \<and> r_sections (scrape env_render_fails sample_url)
       = p_sections (static_scrape env_render_fails sample_url)
   \<and> r_meta (scrape env_render_fails sample_url) ''title''
       = p_meta (static_scrape env_render_fails sample_url) ''title''
   \<and> r_meta (scrape env_render_fails sample_url) ''description''
       = p_meta (static_scrape env_render_fails sample_url) ''description''
   \<and> r_meta (scrape env_render_fails sample_url) ''language''
       = p_meta (static_scrape env_render_fails sample_url) ''language''
   \<and> r_meta (scrape env_render_fails sample_url) ''canonical''
       = p_meta (static_scrape env_render_fails sample_url) ''canonical''
   \<and> p_meta (static_scrape env_render_fails sample_url) ''strategy'' = Some (Str ''static'')
   \<and> r_meta (scrape env_render_fails sample_url) ''strategy'' \<noteq> Some (Str ''static'')"
  by code_simp

section \<open>The source URL of a section\<close>

lemma process_section_url:
  "process_section e element section_type idx url = Inr s \<Longrightarrow> s_sourceUrl s = url"
  by (auto simp: process_section_def Let_def split: sum.splits)

lemma landmarks_loop_url:
  "landmarks_loop e url idx sections ls = Inr ss \<Longrightarrow> \<forall>s \<in> set sections. s_sourceUrl s = url
   \<Longrightarrow> \<forall>s \<in> set ss. s_sourceUrl s = url"
proof (induction ls arbitrary: idx sections)
  case Nil
  then show ?case by simp
next
  case (Cons l ls)
  obtain landmark_type element where l: "l = (landmark_type, element)" by (cases l)
  from Cons.prems(1) l obtain s where
    s: "process_section e element landmark_type idx url = Inr s"
    and rest: "landmarks_loop e url (idx + 1) (if keep_section s then sections @ [s] else sections) ls = Inr ss"
    by (auto split: sum.splits)
  have "\<forall>x \<in> set (if keep_section s then sections @ [s] else sections). s_sourceUrl x = url"
    using Cons.prems(2) process_section_url [OF s] by auto
  from Cons.IH [OF rest this] show ?case .
qed

lemma headings_loop_url:
  "headings_loop e url sections hs = Inr ss \<Longrightarrow> \<forall>s \<in> set sections. s_sourceUrl s = url
   \<Longrightarrow> \<forall>s \<in> set ss. s_sourceUrl s = url"
proof (induction hs arbitrary: sections)
  case Nil
  then show ?case by simp
next
  case (Cons h hs)
  obtain heading siblings where h: "h = (heading, siblings)" by (cases h)
  let ?v = "Element ''section'' []
              (heading # take 16 (takeWhile (\<lambda>n. tag n \<notin> set [''h1'', ''h2'', ''h3'']) siblings))"
  from Cons.prems(1) h obtain s where
    s: "process_section e ?v ''section'' (length sections) url = Inr s"
    and rest: "headings_loop e url (if keep_section s then sections @ [s] else sections) hs = Inr ss"
    by (auto simp: Let_def split: sum.splits)
  have "\<forall>x \<in> set (if keep_section s then sections @ [s] else sections). s_sourceUrl x = url"
    using Cons.prems(2) process_section_url [OF s] by auto
  from Cons.IH [OF rest this] show ?case .
qed

lemma dedup_loop_subset: "set (dedup_loop seen xs) \<subseteq> set xs"
  by (induction xs arbitrary: seen) (auto simp: Let_def)

lemma deduplicate_sections_subset: "set (deduplicate_sections xs) \<subseteq> set xs"
  using dedup_loop_subset [of "{}" xs] by (simp add: deduplicate_sections_def)

lemma extract_sections_url:
  assumes "extract_sections e parser url = Inr ss"
  shows "\<forall>s \<in> set ss. s_sourceUrl s = url"
proof -
  from assms obtain sections where
    l: "landmarks_loop e url 0 [] (find_landmarks parser) = Inr sections"
    by (auto simp: extract_sections_def split: sum.splits)
  have a: "\<forall>s \<in> set sections. s_sourceUrl s = url"
    using landmarks_loop_url [OF l] by simp
  show ?thesis
  proof (cases "length sections < 3")
    case True
    with assms l obtain heading_sections where
      h: "extract_by_headings e parser url = Inr heading_sections"
      and ss: "ss = deduplicate_sections (sections @ heading_sections)"
      by (auto simp: extract_sections_def split: sum.splits)
    have "\<forall>s \<in> set heading_sections. s_sourceUrl s = url"
      using h headings_loop_url [of e url "[]" _ heading_sections]
      by (auto simp: extract_by_headings_def split: option.splits)
    with a ss deduplicate_sections_subset [of "sections @ heading_sections"] show ?thesis
      by auto
  next
    case False
    with assms l have "ss = deduplicate_sections sections"
      by (auto simp: extract_sections_def split: sum.splits)
    with a deduplicate_sections_subset [of sections] show ?thesis by auto
  qed
qed

lemma static_scrape_url: "\<forall>s \<in> set (p_sections (static_scrape e url)). s_sourceUrl s = url"
  using extract_sections_url [of e _ url]
  by (auto simp: static_scrape_def Let_def split: fetch_outcome.splits sum.splits)

lemma js_session_url:
  "p_sections r = [] \<Longrightarrow> \<forall>s \<in> set (p_sections (js_session e run url r)). s_sourceUrl s = url"
  using extract_sections_url [of e _ url]
  by (auto simp: js_session_def Let_def split: attempt.splits sum.splits)

lemma js_scrape_url: "\<forall>s \<in> set (p_sections (js_scrape e url)). s_sourceUrl s = url"
  using js_session_url [of "\<lparr>p_meta = [''strategy'' \<mapsto> Str ''js''], p_sections = [],
       p_interactions = start_interactions url, p_errors = []\<rparr>" e "browser e url" url]
  by (auto simp: js_scrape_def Let_def split: option.splits)

lemma scrape_try_sections:
  "scrape_try e url r = Inr r' \<Longrightarrow>
     r_sections r' = p_sections (static_scrape e url) \<or> r_sections r' = p_sections (js_scrape e url)"
  by (auto simp: scrape_try_def Let_def update_result_def set_strategy_def merge_js_sections
      split: sum.splits if_splits)

text \<open>
  C10. Every section of a result has the requested URL as its source URL, also when the
  render pass followed pagination links: extraction is always handed the requested URL.
\<close>

theorem scrape_source_url: "\<forall>s \<in> set (r_sections (scrape e url)). s_sourceUrl s = url"
proof (cases "scrape_try e url (start_result e url)")
  case (Inl msg)
  then show ?thesis by (simp add: scrape_def Let_def start_result_def)
next
  case (Inr r')
  from scrape_try_sections [OF Inr] static_scrape_url [of e url] js_scrape_url [of e url] Inr
  show ?thesis by (auto simp: scrape_def Let_def)
qed

theorem scrape_source_url_witness:
  "length (r_sections (scrape env_paginated sample_url)) = 2
   \<and> i_pages (r_interactions (scrape env_paginated sample_url))
       = [sample_url, ''https://example.org/?page=2'']
   \<and> map s_sourceUrl (r_sections (scrape env_paginated sample_url)) = [sample_url, sample_url]"
proof -
  have l: "length (r_sections (scrape env_paginated sample_url)) = 2" by code_simp
  have p: "i_pages (r_interactions (scrape env_paginated sample_url))
       = [sample_url, ''https://example.org/?page=2'']"
    by code_simp
  from l obtain a b where ab: "r_sections (scrape env_paginated sample_url) = [a, b]"
    by (auto simp: length_Suc_conv numeral_2_eq_2)
  with scrape_source_url [of env_paginated sample_url]
  have "map s_sourceUrl (r_sections (scrape env_paginated sample_url)) = [sample_url, sample_url]"
    by simp
  with l p show ?thesis by blast
qed

section \<open>The shape of a result\<close>

lemma scrape_records_exception:
  "netloc e url = Inl msg \<Longrightarrow> scrape e url = (start_result e url)\<lparr>r_errors := [err msg ''scrape'']\<rparr>"
  by (simp add: scrape_def scrape_try_def Let_def start_result_def)

text \<open>
  C1 at a fetch that is answered with HTTP 403: the result has an entry of phase "fetch" and
  its metadata holds the strategy only; title, description, language and canonical are
  absent.
\<close>

theorem scrape_forbidden_meta:
  "map e_phase (r_errors (scrape env_forbidden sample_url)) = [''fetch'']
   \<and> r_sections (scrape env_forbidden sample_url) = []
   \<and> r_meta (scrape env_forbidden sample_url) ''strategy'' = Some (Str ''static'')
   \<and> r_meta (scrape env_forbidden sample_url) ''title'' = None
   \<and> r_meta (scrape env_forbidden sample_url) ''description'' = None
   \<and> r_meta (scrape env_forbidden sample_url) ''language'' = None
   \<and> r_meta (scrape env_forbidden sample_url) ''canonical'' = None"
  by code_simp

section \<open>Section ids\<close>

text \<open>
  C6 at a page whose \<open>main\<close> has its heading after two of its three paragraphs: the landmark
  section and the heading section have different texts, so both survive deduplication, and
  both have the id "section-0", since \<open>_extract_by_headings\<close> counts from 0 again.
\<close>

theorem scrape_split_page_ids:
  "map s_id (r_sections (scrape env_split sample_url)) = [''section-0'', ''section-0'']
   \<and> map (\<lambda>s. c_text (s_content s)) (r_sections (scrape env_split sample_url))
       = [''Opening paragraph one. Opening paragraph two. Closing paragraph.'',
          ''Closing paragraph.'']
   \<and> \<not> distinct (map s_id (r_sections (scrape env_split sample_url)))"
  by code_simp

section \<open>The page with one heading and three paragraphs\<close>

lemma heading_selectors_eq: "heading_selectors = [''h1'', ''h2'', ''h3'', ''h4'', ''h5'', ''h6'']"
  by code_simp

lemma strip_Title: "py_strip ''Title'' = ''Title''"
  by code_simp

lemma node_text_single [simp]: "node_text (Element t a [TextNode s]) = py_strip s"
  by (simp add: node_text_def)

lemma css_all_title_children:
  "css_all (Element w [] (title_children t1 t2 t3)) =
     [Element w [] (title_children t1 t2 t3),
      Element ''h1'' [] [TextNode ''Title''], TextNode ''Title'',
      Element ''p'' [] [TextNode t1], TextNode t1,
      Element ''p'' [] [TextNode t2], TextNode t2,
      Element ''p'' [] [TextNode t3], TextNode t3]"
  by (simp add: title_children_def)

lemma css_title_children:
  "''-text'' \<notin> set tags \<Longrightarrow>
   css tags (Element w [] (title_children t1 t2 t3)) =
     concat (map (\<lambda>t. filter (\<lambda>m. tag m = t)
       [Element w [] (title_children t1 t2 t3), Element ''h1'' [] [TextNode ''Title''],
        Element ''p'' [] [TextNode t1], Element ''p'' [] [TextNode t2],
        Element ''p'' [] [TextNode t3]]) tags)"
  unfolding css_def css_all_title_children
  by (intro arg_cong [where f = concat] map_cong refl) auto

lemma headings_main:
  "extract_headings (Element ''main'' [] (title_children t1 t2 t3)) = [''Title'']"
  by (simp add: extract_headings_def heading_selectors_eq css_title_children strip_Title)

lemma headings_title_children:
  assumes "w = ''main'' \<or> w = ''section''"
  shows "extract_headings (Element w [] (title_children t1 t2 t3)) = [''Title'']"
  using assms
  by (elim disjE)
     (simp_all add: extract_headings_def heading_selectors_eq css_title_children strip_Title)

lemma text_title_children:
  assumes "length (py_strip t1) > 10" "length (py_strip t2) > 10" "length (py_strip t3) > 10"
    and "w = ''main'' \<or> w = ''section''"
  shows "extract_text (Element w [] (title_children t1 t2 t3))
           = py_strip t1 @ '' '' @ py_strip t2 @ '' '' @ py_strip t3"
proof -
  have ne: "py_strip t1 \<noteq> []" "py_strip t2 \<noteq> []" "py_strip t3 \<noteq> []" using assms by auto
  have "filter (\<lambda>t. t \<noteq> [] \<and> length t > 10)
          (map node_text (css [''p''] (Element w [] (title_children t1 t2 t3))))
        = [py_strip t1, py_strip t2, py_strip t3]"
    using assms ne by (elim disjE) (simp_all add: css_title_children)
  then show ?thesis by (simp add: extract_text_def)
qed

lemma others_title_children:
  assumes "w = ''main'' \<or> w = ''section''"
  shows "css [''a''] (Element w [] (title_children t1 t2 t3)) = []"
    "css [''img''] (Element w [] (title_children t1 t2 t3)) = []"
    "css [''ul'', ''ol''] (Element w [] (title_children t1 t2 t3)) = []"
    "css [''table''] (Element w [] (title_children t1 t2 t3)) = []"
  using assms by (elim disjE; simp add: css_title_children)+

lemma content_title_children:
  assumes "length (py_strip t1) > 10" "length (py_strip t2) > 10" "length (py_strip t3) > 10"
    and "w = ''main'' \<or> w = ''section''"
  shows "extract_content e (Element w [] (title_children t1 t2 t3)) url =
     Inr \<lparr>c_headings = [''Title''],
          c_text = py_strip t1 @ '' '' @ py_strip t2 @ '' '' @ py_strip t3,
          c_links = [], c_images = [], c_lists = [], c_tables = []\<rparr>"
  by (simp add: extract_content_def headings_title_children [OF assms(4)]
      text_title_children [OF assms] others_title_children [OF assms(4)])

lemma detect_plain:
  assumes "attributes element = []" and "c_lists cont = []"
  shows "detect_section_type element cont = Inr ''section''"
proof -
  have e: "py_lower (py_join '' '' (py_split [])) = []" "py_lower [] = []" by code_simp+
  have n: "\<not> any_in [''hero'', ''banner'', ''jumbotron'', ''masthead''] '' ''"
    "\<not> any_in [''nav'', ''menu'', ''navigation'', ''navbar''] '' ''"
    "\<not> any_in [''footer'', ''foot''] '' ''"
    "\<not> any_in [''faq'', ''question'', ''accordion''] '' ''"
    "\<not> any_in [''pricing'', ''price'', ''plan'', ''tier''] '' ''"
    "\<not> any_in [''grid'', ''gallery'', ''cards''] '' ''"
    by code_simp+
  show ?thesis
    using assms by (simp add: detect_section_type_def attr_get_def Let_def e n)
qed

lemma process_title_children:
  assumes "length (py_strip t1) > 10" "length (py_strip t2) > 10" "length (py_strip t3) > 10"
    and "w = ''main'' \<or> w = ''section''"
  shows "\<exists>s. process_section e (Element w [] (title_children t1 t2 t3)) w idx url = Inr s
     \<and> s_type s = ''section'' \<and> s_label s = ''Title''
     \<and> s_content s = \<lparr>c_headings = [''Title''],
          c_text = py_strip t1 @ '' '' @ py_strip t2 @ '' '' @ py_strip t3,
          c_links = [], c_images = [], c_lists = [], c_tables = []\<rparr>"
proof -
  let ?el = "Element w [] (title_children t1 t2 t3)"
  let ?c = "\<lparr>c_headings = [''Title''],
          c_text = py_strip t1 @ '' '' @ py_strip t2 @ '' '' @ py_strip t3,
          c_links = [], c_images = [], c_lists = [], c_tables = []\<rparr>"
  have d: "detect_section_type ?el ?c = Inr ''section''"
    by (rule detect_plain) simp_all
  have k: "w \<noteq> ''header''" "w \<noteq> ''nav''" "w \<noteq> ''footer''" "w \<noteq> ''article''"
    using assms(4) by auto
  show ?thesis
    unfolding process_section_def content_title_children [OF assms] sum.case d Let_def
    by (simp add: k create_label_def)
qed

lemma css_all_title_page:
  "css_all (title_page t1 t2 t3) =
     [title_page t1 t2 t3,
      Element ''head'' [] [Element ''title'' [] [TextNode ''Sample'']],
      Element ''title'' [] [TextNode ''Sample''], TextNode ''Sample'',
      Element ''body'' [] [Element ''main'' [] (title_children t1 t2 t3)]]
     @ css_all (Element ''main'' [] (title_children t1 t2 t3))"
  by (simp add: title_page_def)

lemma tag_title_page: "tag (title_page t1 t2 t3) = ''html''"
  by (simp add: title_page_def)

lemma css_title_page:
  "''-text'' \<notin> set tags \<Longrightarrow>
   css tags (title_page t1 t2 t3) =
     concat (map (\<lambda>t. filter (\<lambda>m. tag m = t)
       [title_page t1 t2 t3,
        Element ''head'' [] [Element ''title'' [] [TextNode ''Sample'']],
        Element ''title'' [] [TextNode ''Sample''],
        Element ''body'' [] [Element ''main'' [] (title_children t1 t2 t3)],
        Element ''main'' [] (title_children t1 t2 t3), Element ''h1'' [] [TextNode ''Title''],
        Element ''p'' [] [TextNode t1], Element ''p'' [] [TextNode t2],
        Element ''p'' [] [TextNode t3]]) tags)"
  unfolding css_def css_all_title_page css_all_title_children
  by (intro arg_cong [where f = concat] map_cong refl) auto

lemma no_canonical_title_page:
  "css_first_attr ''link'' ''rel'' ''canonical'' (title_page t1 t2 t3) = None"
  unfolding css_first_attr_def css_all_title_page css_all_title_children
  by (simp add: tag_title_page)

lemma extract_meta_title_page: "\<exists>m. extract_meta e (title_page t1 t2 t3) url = Inr m"
  by (simp add: extract_meta_def Let_def no_canonical_title_page)

lemma find_landmarks_title_page:
  "find_landmarks (title_page t1 t2 t3) = [(''main'', Element ''main'' [] (title_children t1 t2 t3))]"
  by (simp add: find_landmarks_def first_landmark_def css_first_def css_title_page tag_title_page)

lemma body_title_page:
  "css_first [''body''] (title_page t1 t2 t3)
     = Some (Element ''body'' [] [Element ''main'' [] (title_children t1 t2 t3)])"
  by (simp add: css_first_def css_title_page tag_title_page)

lemma following_title_page:
  "following (Element ''body'' [] [Element ''main'' [] (title_children t1 t2 t3)])
     = [(Element ''h1'' [] [TextNode ''Title''],
         [Element ''p'' [] [TextNode t1], Element ''p'' [] [TextNode t2], Element ''p'' [] [TextNode t3]])]"
  by (simp add: title_children_def)

lemma heading_matches_title_page:
  "heading_matches (Element ''body'' [] [Element ''main'' [] (title_children t1 t2 t3)])
     = [(Element ''h1'' [] [TextNode ''Title''],
         [Element ''p'' [] [TextNode t1], Element ''p'' [] [TextNode t2], Element ''p'' [] [TextNode t3]])]"
  unfolding heading_matches_def following_title_page by simp

lemma virtual_title_section:
  "Element ''section'' []
     (Element ''h1'' [] [TextNode ''Title'']
      # take 16 (takeWhile (\<lambda>n. tag n \<notin> set [''h1'', ''h2'', ''h3''])
           [Element ''p'' [] [TextNode t1], Element ''p'' [] [TextNode t2],
            Element ''p'' [] [TextNode t3]]))
   = Element ''section'' [] (title_children t1 t2 t3)"
  by (simp add: title_children_def)

text \<open>
  C8, as the code has it. For a page whose body holds a \<open>main\<close> without attributes, whose
  children are one \<open>h1\<close> "Title" first and then three paragraphs whose trimmed texts are
  longer than 10 characters, extraction returns exactly one section, of type "section", with
  label "Title" and headings ["Title"]; so does the fetch pass when the page is what the
  fetch returns. (The landmark section and the section of the heading fallback have the same
  text, and deduplication keeps the first.)
\<close>

theorem title_page_one_section:
  assumes "length (py_strip t1) > 10" "length (py_strip t2) > 10" "length (py_strip t3) > 10"
  shows "\<exists>s. extract_sections e (title_page t1 t2 t3) url = Inr [s]
     \<and> (fetch e url = FetchOk (title_page t1 t2 t3) \<longrightarrow> p_sections (static_scrape e url) = [s])
     \<and> s_type s = ''section'' \<and> s_label s = ''Title'' \<and> c_headings (s_content s) = [''Title'']"
proof -
  let ?c = "\<lparr>c_headings = [''Title''],
          c_text = py_strip t1 @ '' '' @ py_strip t2 @ '' '' @ py_strip t3,
          c_links = [], c_images = [], c_lists = [], c_tables = []\<rparr>"
  obtain s where s:
    "process_section e (Element ''main'' [] (title_children t1 t2 t3)) ''main'' 0 url = Inr s"
    "s_type s = ''section''" "s_label s = ''Title''" "s_content s = ?c"
    using process_title_children [OF assms, of "''main''" e 0 url] by auto
  obtain s' where s':
    "process_section e (Element ''section'' [] (title_children t1 t2 t3)) ''section'' 0 url = Inr s'"
    "s_content s' = ?c"
    using process_title_children [OF assms, of "''section''" e 0 url] by auto
  have k: "keep_section s" "keep_section s'"
    using s(4) s'(2) by (simp_all add: keep_section_def)
  have l: "landmarks_loop e url 0 [] (find_landmarks (title_page t1 t2 t3)) = Inr [s]"
    by (simp add: find_landmarks_title_page s(1) k)
  have "extract_by_headings e (title_page t1 t2 t3) url =
      headings_loop e url []
        [(Element ''h1'' [] [TextNode ''Title''],
          [Element ''p'' [] [TextNode t1], Element ''p'' [] [TextNode t2],
           Element ''p'' [] [TextNode t3]])]"
    by (simp only: extract_by_headings_def body_title_page option.case
          heading_matches_title_page)
       simp
  then have h: "extract_by_headings e (title_page t1 t2 t3) url = Inr [s']"
    using s'(1) k(2) virtual_title_section [of t1 t2 t3]
    by (simp add: Let_def)
  have f: "fingerprint s' = fingerprint s"
    by (simp add: fingerprint_def s(4) s'(2))
  have "py_strip t1 \<noteq> []" using assms(1) by auto
  then have n: "fingerprint s \<noteq> []"
    using fingerprint_nonempty [of s t1 "'' '' @ py_strip t2 @ '' '' @ py_strip t3"] s(4) by simp
  have d: "deduplicate_sections [s, s'] = [s]"
    using f n by (simp add: deduplicate_sections_def Let_def)
  have x: "extract_sections e (title_page t1 t2 t3) url = Inr [s]"
    by (simp add: extract_sections_def l h d)
  obtain m where "extract_meta e (title_page t1 t2 t3) url = Inr m"
    using extract_meta_title_page by blast
  with x have "fetch e url = FetchOk (title_page t1 t2 t3) \<longrightarrow> p_sections (static_scrape e url) = [s]"
    by (simp add: static_scrape_def Let_def)
  with x s(2,3,4) show ?thesis by (intro exI [of _ s]) simp
qed

theorem title_page_one_section_witness:
  "length (py_strip ''First paragraph.'') > 10
   \<and> length (py_strip ''Second paragraph.'') > 10
   \<and> length (py_strip ''Third paragraph.'') > 10
   \<and> fetch env_render_fails sample_url
       = FetchOk (title_page ''First paragraph.'' ''Second paragraph.'' ''Third paragraph.'')
   \<and> (\<exists>s. p_sections (static_scrape env_render_fails sample_url) = [s]
         \<and> s_type s = ''section'' \<and> s_label s = ''Title''
         \<and> c_headings (s_content s) = [''Title''])"
proof -
  have a: "length (py_strip ''First paragraph.'') > 10"
    "length (py_strip ''Second paragraph.'') > 10"
    "length (py_strip ''Third paragraph.'') > 10"
    by code_simp+
  have b: "fetch env_render_fails sample_url
       = FetchOk (title_page ''First paragraph.'' ''Second paragraph.'' ''Third paragraph.'')"
    by (simp add: env_render_fails_def sample_env_def sample_page_def)
  from title_page_one_section [OF a, of env_render_fails sample_url] b
  have "\<exists>s. p_sections (static_scrape env_render_fails sample_url) = [s]
         \<and> s_type s = ''section'' \<and> s_label s = ''Title''
         \<and> c_headings (s_content s) = [''Title'']"
    by blast
  with a b show ?thesis by blast
qed

text \<open>
  C8, as the specification words it, fails when the heading is not the first child: with the
  \<open>h1\<close> after the three paragraphs the heading fallback yields a section with the heading
  and no text, which deduplication keeps beside the landmark section.
\<close>

theorem heading_last_page_two_sections:
  "fetch env_heading_last sample_url = FetchOk heading_last_page
   \<and> extract_sections env_heading_last heading_last_page sample_url
       = Inr (p_sections (static_scrape env_heading_last sample_url))
   \<and> length (p_sections (static_scrape env_heading_last sample_url)) = 2
   \<and> map s_type (p_sections (static_scrape env_heading_last sample_url))
       = [''section'', ''section'']
   \<and> map s_label (p_sections (static_scrape env_heading_last sample_url)) = [''Title'', ''Title'']
   \<and> map (c_text \<circ> s_content) (p_sections (static_scrape env_heading_last sample_url))
       = [''First paragraph. Second paragraph. Third paragraph.'', []]"
  by code_simp

end
